theory Spec2Isabelle
  imports Complex_Main
begin

section \<open>The training and evaluation driver of YOLOv11-pt (main.py)\<close>

text \<open>
  A shallow embedding of \<^verbatim>\<open>src/main.py\<close>: the functions \<^verbatim>\<open>train\<close>, \<^verbatim>\<open>plot_mAP\<close>,
  \<^verbatim>\<open>test\<close>, \<^verbatim>\<open>profile\<close>, \<^verbatim>\<open>zip_weights_directory\<close> and \<^verbatim>\<open>main\<close>.

  Python integers are \<open>int\<close>; loop indices, which \<^verbatim>\<open>range\<close> and \<^verbatim>\<open>enumerate\<close> start at 0,
  are \<open>nat\<close>. Python floats are idealised as \<open>real\<close>: the model compares and multiplies
  them exactly and knows no NaN. A raised exception is a value of type \<open>error\<close>; the
  source has no \<^verbatim>\<open>try\<close>, so the first exception ends the run. Every call that leaves
  main.py (torch, the model, the data set, matplotlib, the file system) is recorded as an
  \<open>event\<close>, in program order.
\<close>

subsection \<open>Errors, events, arguments, state\<close>

datatype error = ValueError | ZeroDivisionError | FileNotFoundError | OSError

text \<open>The tuple \<^verbatim>\<open>mean_ap, map50, m_rec, m_pre\<close> that \<^verbatim>\<open>test\<close> returns.\<close>

type_synonym metrics = "real \<times> real \<times> real \<times> real"

text \<open>
  One data row of the metric log: the epoch number and the values formatted into it
  (the \<^verbatim>\<open>.3f\<close> formatting of the floats is not modelled).
\<close>

record row =
  r_epoch :: nat
  r_losses :: "real \<times> real \<times> real"
  r_metrics :: metrics

text \<open>
  The dictionary \<^verbatim>\<open>{'epoch': epoch + 1, 'model': copy.deepcopy(ema.ema)}\<close> that
  \<^verbatim>\<open>torch.save\<close> writes. The shadow model is identified by the index of the epoch at
  whose end it was copied.
\<close>

record ckpt =
  ck_epoch :: nat
  ck_model :: nat
  ck_stripped :: bool

datatype event =
    SetDevice int
  | InitProcessGroup
  | DestroyProcessGroup
  | MakeDirs
  | Profile
  | BuildModel string
  | BuildOptimizer real
  | BuildEMA
  | BuildDataset bool
  | BuildSampler
  | WrapDDP int
  | OpenWrite string
  | WriteHeader
  | CloseLog
  | TrainMode nat
  | SetEpoch nat
  | MosaicOff nat
  | LoaderIter nat bool
  | ZeroGrad
  | SchedulerStep nat
  | Backward nat
  | ScalerStep nat bool
  | ScalerUpdate
  | EmaUpdate nat
  | Synchronize
  | LoadCheckpoint string
  | Inference nat
  | OpenRead string
  | SavePlot string
  | ComputeAP nat
  | WriteRow row
  | Flush
  | Save string nat
  | StripOptimizer string
  | EmptyCache
  | WriteZip string "string list"

text \<open>
  The namespace \<^verbatim>\<open>args\<close>. The parser fills the first eight fields (\<^verbatim>\<open>--local-rank\<close> and
  \<^verbatim>\<open>--local_rank\<close> share the destination \<open>local_rank\<close>); \<^verbatim>\<open>main\<close> adds \<open>world_size\<close> and
  \<open>distributed\<close>.
\<close>

record args =
  input_size :: int
  batch_size :: int
  local_rank :: int
  epochs :: int
  train_flag :: bool
  test_flag :: bool
  version :: string
  zip_flag :: bool
  world_size :: int
  distributed :: bool

text \<open>
  What the collaborators outside main.py answer. \<open>str_to_int\<close> is Python's \<^verbatim>\<open>int\<close> on a
  string (\<open>None\<close> where it raises ValueError); \<open>loader_len\<close> is \<^verbatim>\<open>len(loader)\<close>;
  \<open>grad_overflow step\<close> tells whether the gradient scaler finds a non-finite gradient at
  the update attempted at \<open>step\<close>, in which case \<^verbatim>\<open>amp_scale.step\<close> skips
  \<^verbatim>\<open>optimizer.step\<close>; \<open>avg_losses epoch\<close> are the three loss averages of an epoch;
  \<open>ap_metrics m\<close> is what the inference and average-precision pipeline computes for the
  model copied at epoch index \<open>m\<close>; \<open>mosaic_init\<close> is the mosaic flag of a data set built
  with \<^verbatim>\<open>augment=True\<close>.
\<close>

record externals =
  str_to_int :: "string \<Rightarrow> int option"
  loader_len :: nat
  grad_overflow :: "nat \<Rightarrow> bool"
  avg_losses :: "nat \<Rightarrow> real \<times> real \<times> real"
  ap_metrics :: "nat \<Rightarrow> metrics"
  mosaic_init :: bool

text \<open>
  The state a run reads and writes. The first six fields are the files of the run's
  configuration under \<^verbatim>\<open>./weights\<close>: \<open>log_disk\<close> holds the data rows of
  \<^verbatim>\<open>step_<version>_<epochs>.csv\<close> as they are on disk (\<open>None\<close>: no such file; the header
  line makes no difference to a reader of rows and is not kept), \<open>last_pt\<close> and \<open>best_pt\<close>
  the two checkpoints, \<open>plot_png\<close> whether the plot exists, \<open>plot_writable\<close> whether
  matplotlib can write it. \<open>weight_decay\<close> is \<^verbatim>\<open>params['weight_decay']\<close>, \<open>mosaic\<close> is
  \<^verbatim>\<open>loader.dataset.mosaic\<close>, \<open>best\<close> is the local variable of \<^verbatim>\<open>train\<close>.
\<close>

record state =
  weights_dir :: bool
  log_disk :: "row list option"
  last_pt :: "ckpt option"
  best_pt :: "ckpt option"
  plot_png :: bool
  plot_writable :: bool
  result_zip :: bool
  weight_decay :: real
  mosaic :: bool
  best :: real

subsection \<open>Statements: state, events, exceptions\<close>

text \<open>
  A statement maps the state to the events it produced, the new state, and either the
  exception it raised (\<open>Inl\<close>) or its value (\<open>Inr\<close>).
\<close>

type_synonym 'a prog = "state \<Rightarrow> event list \<times> state \<times> (error + 'a)"

definition ret :: "'a \<Rightarrow> 'a prog" where
  "ret v = (\<lambda>s. ([], s, Inr v))"

definition throw :: "error \<Rightarrow> 'a prog" where
  "throw e = (\<lambda>s. ([], s, Inl e))"

definition emit :: "event \<Rightarrow> unit prog" where
  "emit ev = (\<lambda>s. ([ev], s, Inr ()))"

definition emit_all :: "event list \<Rightarrow> unit prog" where
  "emit_all evs = (\<lambda>s. (evs, s, Inr ()))"

definition modify :: "(state \<Rightarrow> state) \<Rightarrow> unit prog" where
  "modify f = (\<lambda>s. ([], f s, Inr ()))"

text \<open>Sequencing: an exception of the first statement skips the second.\<close>

definition and_then :: "'a prog \<Rightarrow> ('a \<Rightarrow> 'b prog) \<Rightarrow> 'b prog" where
  "and_then m f = (\<lambda>s. case m s of
       (t, s', Inl e) \<Rightarrow> (t, s', Inl e)
     | (t, s', Inr v) \<Rightarrow> (case f v s' of (t', s'', r) \<Rightarrow> (t @ t', s'', r)))"

definition py_if :: "bool \<Rightarrow> unit prog \<Rightarrow> unit prog" where
  "py_if c m = (if c then m else ret ())"

text \<open>A \<^verbatim>\<open>for\<close> loop over a list: the body runs for each element until one raises.\<close>

fun for_each :: "'a list \<Rightarrow> ('a \<Rightarrow> unit prog) \<Rightarrow> unit prog" where
  "for_each [] body = ret ()"
| "for_each (x # xs) body = and_then (body x) (\<lambda>_. for_each xs body)"

definition events_of :: "event list \<times> state \<times> (error + 'a) \<Rightarrow> event list" where
  "events_of r = fst r"

definition state_of :: "event list \<times> state \<times> (error + 'a) \<Rightarrow> state" where
  "state_of r = fst (snd r)"

definition result_of :: "event list \<times> state \<times> (error + 'a) \<Rightarrow> error + 'a" where
  "result_of r = snd (snd r)"

subsection \<open>File names\<close>

text \<open>Python's \<^verbatim>\<open>str\<close> of an integer, as the f-strings of the file names use it.\<close>

fun str_nat :: "nat \<Rightarrow> string" where
  "str_nat n = (if n < 10 then [''0123456789'' ! n]
                else str_nat (n div 10) @ [''0123456789'' ! (n mod 10)])"

declare str_nat.simps [simp del]

definition str_int :: "int \<Rightarrow> string" where
  "str_int i = (if i < 0 then CHR ''-'' # str_nat (nat (- i)) else str_nat (nat i))"

definition run_tag :: "args \<Rightarrow> string" where
  "run_tag a = version a @ ''_'' @ str_int (epochs a)"

definition csv_file :: "args \<Rightarrow> string" where
  "csv_file a = ''weights/step_'' @ run_tag a @ ''.csv''"

definition last_file :: "args \<Rightarrow> string" where
  "last_file a = ''./weights/last_'' @ run_tag a @ ''.pt''"

definition best_file :: "args \<Rightarrow> string" where
  "best_file a = ''./weights/best_'' @ run_tag a @ ''.pt''"

definition plot_file :: "args \<Rightarrow> string" where
  "plot_file a = ''./weights/mAP_vs_epochs_'' @ run_tag a @ ''.png''"

definition zip_file :: "args \<Rightarrow> string" where
  "zip_file a = ''result_'' @ run_tag a @ ''.zip''"

subsection \<open>The accumulation count and the weight decay (lines 43-44)\<close>

text \<open>
  Python's \<^verbatim>\<open>round\<close> of a float to an integer rounds a tie to the even neighbour.
\<close>

definition py_round :: "real \<Rightarrow> int" where
  "py_round x = (let f = \<lfloor>x\<rfloor>; d = x - of_int f in
     if d < 1 / 2 then f else if 1 / 2 < d then f + 1
     else if even f then f else f + 1)"

text \<open>
  \<^verbatim>\<open>accumulate = max(round(64 / (args.batch_size * args.world_size)), 1)\<close>; the true
  division raises when the product is 0.
\<close>

definition accumulate :: "args \<Rightarrow> error + int" where
  "accumulate a =
     (if batch_size a * world_size a = 0 then Inl ZeroDivisionError
      else Inr (max (py_round (64 / of_int (batch_size a * world_size a))) 1))"

text \<open>
  \<^verbatim>\<open>params['weight_decay'] *= args.batch_size * args.world_size * accumulate / 64\<close>
\<close>

definition scale_weight_decay :: "args \<Rightarrow> int \<Rightarrow> unit prog" where
  "scale_weight_decay a acc = modify (\<lambda>s. s\<lparr>weight_decay :=
       weight_decay s * (of_int (batch_size a * world_size a * acc) / 64)\<rparr>)"

text \<open>
  The reading of the specification's formula with the rounding of mathematics (a tie
  goes up), for comparison with the code's.
\<close>

definition spec_accumulate :: "int \<Rightarrow> int \<Rightarrow> int" where
  "spec_accumulate b w = max (round (64 / (of_int (b * w) :: real))) 1"

subsection \<open>Building the model, the optimizer and the loader (lines 25-100)\<close>

definition lift :: "error + 'a \<Rightarrow> 'a prog" where
  "lift r = (\<lambda>s. ([], s, r))"

definition build_model :: "args \<Rightarrow> unit prog" where
  "build_model a =
     (if version a = ''n'' then emit (BuildModel ''yolo_v11_n'')
      else if version a = ''s'' then emit (BuildModel ''yolo_v11_s'')
      else if version a = ''m'' then emit (BuildModel ''yolo_v11_m'')
      else if version a = ''l'' then emit (BuildModel ''yolo_v11_l'')
      else if version a = ''x'' then emit (BuildModel ''yolo_v11_x'')
      else throw ValueError)"

definition build_optimizer :: "unit prog" where
  "build_optimizer = (\<lambda>s. ([BuildOptimizer (weight_decay s)], s, Inr ()))"

text \<open>
  Everything \<^verbatim>\<open>train\<close> does before it opens the metric log. The value is
  \<^verbatim>\<open>accumulate\<close>. Reading the list of training images and counting the files that
  exist only prints, and is left out.
\<close>

definition train_setup :: "externals \<Rightarrow> args \<Rightarrow> int prog" where
  "train_setup x a =
     and_then (build_model a) (\<lambda>_.
     and_then (lift (accumulate a)) (\<lambda>acc.
     and_then (scale_weight_decay a acc) (\<lambda>_.
     and_then build_optimizer (\<lambda>_.
     and_then (py_if (local_rank a = 0) (emit BuildEMA)) (\<lambda>_.
     and_then (emit (BuildDataset True)) (\<lambda>_.
     and_then (modify (\<lambda>s. s\<lparr>mosaic := mosaic_init x\<rparr>)) (\<lambda>_.
     and_then (py_if (distributed a) (emit BuildSampler)) (\<lambda>_.
     and_then (py_if (distributed a) (emit (WrapDDP (local_rank a)))) (\<lambda>_.
     and_then (modify (\<lambda>s. s\<lparr>best := 0\<rparr>)) (\<lambda>_.
     ret acc))))))))))"

subsection \<open>One micro-step (lines 132-175)\<close>

text \<open>
  The body of the inner loop for batch \<open>i\<close> of epoch \<open>epoch\<close>. It reads no state of
  the model and raises nothing, so it is a list of events. \<^verbatim>\<open>ema\<close> is an object on
  rank 0 and \<^verbatim>\<open>None\<close> elsewhere, so \<^verbatim>\<open>if ema:\<close> tests the rank.
\<close>

definition micro_step :: "externals \<Rightarrow> args \<Rightarrow> int \<Rightarrow> nat \<Rightarrow> nat \<Rightarrow> event list" where
  "micro_step x a acc epoch i =
     (let step = i + loader_len x * epoch in
        [SchedulerStep step, Backward step] @
        (if int step mod acc = 0
         then [ScalerStep step (\<not> grad_overflow x step), ScalerUpdate, ZeroGrad] @
              (if local_rank a = 0 then [EmaUpdate step] else [])
         else []) @
        [Synchronize])"

definition step_loop :: "externals \<Rightarrow> args \<Rightarrow> int \<Rightarrow> nat \<Rightarrow> event list" where
  "step_loop x a acc epoch = concat (map (micro_step x a acc epoch) [0..<loader_len x])"

subsection \<open>Plotting and evaluation (lines 221-351)\<close>

text \<open>
  \<^verbatim>\<open>plot_mAP\<close> opens the metric log for reading (\<^verbatim>\<open>./weights/step_..csv\<close>, the file
  \<^verbatim>\<open>train\<close> writes as \<^verbatim>\<open>weights/step_..csv\<close>), collects a point from each data row and
  takes \<^verbatim>\<open>max(mAP_list)\<close>, which raises ValueError on an empty list; then matplotlib
  writes the plot.
\<close>

definition plot_mAP :: "args \<Rightarrow> unit prog" where
  "plot_mAP a = (\<lambda>s. case log_disk s of
        None \<Rightarrow> ([], s, Inl FileNotFoundError)
      | Some rows \<Rightarrow>
          if rows = [] then ([OpenRead (''./'' @ csv_file a)], s, Inl ValueError)
          else if \<not> plot_writable s then ([OpenRead (''./'' @ csv_file a)], s, Inl OSError)
          else ([OpenRead (''./'' @ csv_file a), SavePlot (plot_file a)],
                s\<lparr>plot_png := True\<rparr>, Inr ()))"

text \<open>
  \<^verbatim>\<open>test(args, params, model)\<close>. The argument is the epoch index of the shadow model
  passed in, or \<open>None\<close>, in which case the best checkpoint is loaded.
\<close>

definition load_best :: "args \<Rightarrow> nat prog" where
  "load_best a = (\<lambda>s. case best_pt s of
        None \<Rightarrow> ([], s, Inl FileNotFoundError)
      | Some c \<Rightarrow> ([LoadCheckpoint (best_file a)], s, Inr (ck_model c)))"

definition test :: "externals \<Rightarrow> args \<Rightarrow> nat option \<Rightarrow> metrics prog" where
  "test x a model =
     and_then (emit (BuildDataset False)) (\<lambda>_.
     and_then (case model of Some m \<Rightarrow> ret m | None \<Rightarrow> load_best a) (\<lambda>m.
     and_then (emit (Inference m)) (\<lambda>_.
     and_then (plot_mAP a) (\<lambda>_.
     and_then (emit (ComputeAP m)) (\<lambda>_.
     ret (ap_metrics x m))))))"

subsection \<open>Logging and checkpoints at the end of an epoch (lines 177-212)\<close>

definition write_row :: "externals \<Rightarrow> nat \<Rightarrow> metrics \<Rightarrow> unit prog" where
  "write_row x epoch lastm = (\<lambda>s.
     let r = \<lparr>r_epoch = epoch + 1, r_losses = avg_losses x epoch, r_metrics = lastm\<rparr>
     in ([WriteRow r, Flush],
         s\<lparr>log_disk := map_option (\<lambda>rows. rows @ [r]) (log_disk s)\<rparr>, Inr ()))"

definition update_best :: "real \<Rightarrow> unit prog" where
  "update_best current_mAP =
     modify (\<lambda>s. if best s < current_mAP then s\<lparr>best := current_mAP\<rparr> else s)"

definition new_ckpt :: "nat \<Rightarrow> ckpt" where
  "new_ckpt epoch = \<lparr>ck_epoch = epoch + 1, ck_model = epoch, ck_stripped = False\<rparr>"

definition save_last :: "args \<Rightarrow> nat \<Rightarrow> unit prog" where
  "save_last a epoch = (\<lambda>s.
     ([Save (last_file a) (epoch + 1)], s\<lparr>last_pt := Some (new_ckpt epoch)\<rparr>, Inr ()))"

definition save_best :: "args \<Rightarrow> nat \<Rightarrow> real \<Rightarrow> unit prog" where
  "save_best a epoch current_mAP = (\<lambda>s.
     if best s = current_mAP
     then ([Save (best_file a) (epoch + 1)], s\<lparr>best_pt := Some (new_ckpt epoch)\<rparr>, Inr ())
     else ([], s, Inr ()))"

text \<open>Lines 180-212, after \<^verbatim>\<open>test\<close> has returned \<^verbatim>\<open>last\<close> (here \<open>lastm\<close>).\<close>

definition log_and_save :: "externals \<Rightarrow> args \<Rightarrow> nat \<Rightarrow> metrics \<Rightarrow> unit prog" where
  "log_and_save x a epoch lastm =
     and_then (write_row x epoch lastm) (\<lambda>_.
     and_then (update_best (fst lastm)) (\<lambda>_.
     and_then (save_last a epoch) (\<lambda>_.
     save_best a epoch (fst lastm))))"

definition epoch_end :: "externals \<Rightarrow> args \<Rightarrow> nat \<Rightarrow> unit prog" where
  "epoch_end x a epoch = and_then (test x a (Some epoch)) (log_and_save x a epoch)"

subsection \<open>The epoch loop and \<^verbatim>\<open>train\<close> (lines 102-218)\<close>

definition mosaic_toggle :: "args \<Rightarrow> nat \<Rightarrow> unit prog" where
  "mosaic_toggle a epoch =
     py_if (epochs a - int epoch = 10)
       (and_then (modify (\<lambda>s. s\<lparr>mosaic := False\<rparr>)) (\<lambda>_. emit (MosaicOff epoch)))"

text \<open>
  \<^verbatim>\<open>enumerate(loader)\<close>: the loader starts the epoch with the data set's mosaic flag as it
  is then.
\<close>

definition loader_iter :: "nat \<Rightarrow> unit prog" where
  "loader_iter epoch = (\<lambda>s. ([LoaderIter epoch (mosaic s)], s, Inr ()))"

definition epoch_body :: "externals \<Rightarrow> args \<Rightarrow> int \<Rightarrow> nat \<Rightarrow> unit prog" where
  "epoch_body x a acc epoch =
     and_then (emit (TrainMode epoch)) (\<lambda>_.
     and_then (py_if (distributed a) (emit (SetEpoch epoch))) (\<lambda>_.
     and_then (mosaic_toggle a epoch) (\<lambda>_.
     and_then (loader_iter epoch) (\<lambda>_.
     and_then (emit ZeroGrad) (\<lambda>_.
     and_then (emit_all (step_loop x a acc epoch)) (\<lambda>_.
     py_if (local_rank a = 0) (epoch_end x a epoch)))))))"

text \<open>
  \<^verbatim>\<open>open(csv_file, 'w', newline='')\<close> creates the file or truncates it; it raises when
  the directory does not exist.
\<close>

definition open_log :: "args \<Rightarrow> unit prog" where
  "open_log a = (\<lambda>s.
     if weights_dir s then ([OpenWrite (csv_file a)], s\<lparr>log_disk := Some []\<rparr>, Inr ())
     else ([], s, Inl FileNotFoundError))"

text \<open>The \<^verbatim>\<open>with\<close> statement closes the file when its body returns and when it raises.\<close>

definition with_log :: "args \<Rightarrow> unit prog \<Rightarrow> unit prog" where
  "with_log a body =
     and_then (open_log a) (\<lambda>_. \<lambda>s. case body s of (t, s', r) \<Rightarrow> (t @ [CloseLog], s', r))"

text \<open>
  Modelled from the spec: \<^verbatim>\<open>util.strip_optimizer\<close> is not in main.py; it "removes
  optimizer/scheduler state from a persisted artifact, leaving only inference-relevant
  weights".
\<close>

definition strip_optimizer ::
  "string \<Rightarrow> ((ckpt option \<Rightarrow> ckpt option) \<Rightarrow> state \<Rightarrow> state) \<Rightarrow> unit prog" where
  "strip_optimizer f upd = (\<lambda>s.
     ([StripOptimizer f], upd (map_option (\<lambda>c. c\<lparr>ck_stripped := True\<rparr>)) s, Inr ()))"

definition epoch_range :: "args \<Rightarrow> nat list" where
  "epoch_range a = [0..<nat (epochs a)]"

definition train :: "externals \<Rightarrow> args \<Rightarrow> unit prog" where
  "train x a =
     and_then (train_setup x a) (\<lambda>acc.
     and_then (with_log a
        (and_then (py_if (local_rank a = 0) (emit WriteHeader)) (\<lambda>_.
         for_each (epoch_range a) (epoch_body x a acc)))) (\<lambda>_.
     py_if (local_rank a = 0)
       (and_then (strip_optimizer (last_file a) last_pt_update) (\<lambda>_.
        strip_optimizer (best_file a) best_pt_update))))"

subsection \<open>\<^verbatim>\<open>zip_weights_directory\<close> and \<^verbatim>\<open>main\<close> (lines 371-462)\<close>

text \<open>
  Of the directory listing, the files of this configuration that the program itself
  manages are modelled; all of them match the pattern \<^verbatim>\<open>_<version>_<epochs>.\<close>
\<close>

definition run_files :: "args \<Rightarrow> state \<Rightarrow> string list" where
  "run_files a s =
     (if log_disk s = None then [] else [csv_file a]) @
     (if last_pt s = None then [] else [last_file a]) @
     (if best_pt s = None then [] else [best_file a]) @
     (if plot_png s then [plot_file a] else [])"

definition zip_weights_directory :: "args \<Rightarrow> unit prog" where
  "zip_weights_directory a = (\<lambda>s.
     if \<not> weights_dir s then ([], s, Inr ())
     else if run_files a s = [] then ([], s, Inr ())
     else ([WriteZip (zip_file a) (run_files a s)], s\<lparr>result_zip := True\<rparr>, Inr ()))"

text \<open>\<^verbatim>\<open>os.getenv(name, default)\<close> with an integer default, and \<^verbatim>\<open>int\<close> of the result.\<close>

datatype pyval = PyStr string | PyInt int

definition getenv :: "(string \<Rightarrow> string option) \<Rightarrow> string \<Rightarrow> int \<Rightarrow> pyval" where
  "getenv env name d = (case env name of None \<Rightarrow> PyInt d | Some v \<Rightarrow> PyStr v)"

definition py_int :: "externals \<Rightarrow> pyval \<Rightarrow> int prog" where
  "py_int x v = (case v of
        PyInt n \<Rightarrow> ret n
      | PyStr str \<Rightarrow> (case str_to_int x str of None \<Rightarrow> throw ValueError | Some n \<Rightarrow> ret n))"

text \<open>Lines 416-418: the three assignments to the parsed arguments.\<close>

definition process_identity ::
  "externals \<Rightarrow> (string \<Rightarrow> string option) \<Rightarrow> args \<Rightarrow> args prog" where
  "process_identity x env parsed =
     and_then (py_int x (getenv env ''LOCAL_RANK'' 0)) (\<lambda>lr.
     and_then (py_int x (getenv env ''WORLD_SIZE'' 1)) (\<lambda>ws.
     and_then (py_int x (getenv env ''WORLD_SIZE'' 1)) (\<lambda>ws'.
     ret (parsed\<lparr>local_rank := lr, world_size := ws, distributed := (1 < ws')\<rparr>))))"

definition make_weights_dir :: "unit prog" where
  "make_weights_dir = (\<lambda>s.
     if \<not> weights_dir s then ([MakeDirs], s\<lparr>weights_dir := True\<rparr>, Inr ())
     else ([], s, Inr ()))"

text \<open>Lines 420-450, with the arguments as the three assignments left them.\<close>

definition main_body :: "externals \<Rightarrow> args \<Rightarrow> unit prog" where
  "main_body x a =
     and_then (py_if (distributed a)
        (and_then (emit (SetDevice (local_rank a))) (\<lambda>_. emit InitProcessGroup))) (\<lambda>_.
     and_then (py_if (local_rank a = 0) make_weights_dir) (\<lambda>_.
     and_then (emit Profile) (\<lambda>_.
     and_then (py_if (train_flag a) (train x a)) (\<lambda>_.
     and_then (py_if (test_flag a) (and_then (test x a None) (\<lambda>_. ret ()))) (\<lambda>_.
     and_then (py_if (distributed a) (emit DestroyProcessGroup)) (\<lambda>_.
     and_then (emit EmptyCache) (\<lambda>_.
     py_if (zip_flag a) (zip_weights_directory a))))))))"

definition main :: "externals \<Rightarrow> (string \<Rightarrow> string option) \<Rightarrow> args \<Rightarrow> unit prog" where
  "main x env parsed = and_then (process_identity x env parsed) (main_body x)"

subsection \<open>Reading a trace\<close>

text \<open>The steps at which \<^verbatim>\<open>amp_scale.step(optimizer)\<close> was called.\<close>

definition update_steps :: "event list \<Rightarrow> nat list" where
  "update_steps t = concat (map (\<lambda>ev. case ev of ScalerStep k b \<Rightarrow> [k] | _ \<Rightarrow> []) t)"

text \<open>The steps at which that call did run \<^verbatim>\<open>optimizer.step\<close>.\<close>

definition applied_steps :: "event list \<Rightarrow> nat list" where
  "applied_steps t =
     concat (map (\<lambda>ev. case ev of ScalerStep k b \<Rightarrow> (if b then [k] else []) | _ \<Rightarrow> []) t)"

definition ema_steps :: "event list \<Rightarrow> nat list" where
  "ema_steps t = concat (map (\<lambda>ev. case ev of EmaUpdate k \<Rightarrow> [k] | _ \<Rightarrow> []) t)"

definition micro_steps :: "event list \<Rightarrow> nat list" where
  "micro_steps t = concat (map (\<lambda>ev. case ev of Backward k \<Rightarrow> [k] | _ \<Rightarrow> []) t)"

definition toggles :: "event list \<Rightarrow> nat list" where
  "toggles t = concat (map (\<lambda>ev. case ev of MosaicOff e \<Rightarrow> [e] | _ \<Rightarrow> []) t)"

definition iter_flags :: "event list \<Rightarrow> (nat \<times> bool) list" where
  "iter_flags t = concat (map (\<lambda>ev. case ev of LoaderIter e f \<Rightarrow> [(e, f)] | _ \<Rightarrow> []) t)"

definition rows_written :: "event list \<Rightarrow> row list" where
  "rows_written t = concat (map (\<lambda>ev. case ev of WriteRow r \<Rightarrow> [r] | _ \<Rightarrow> []) t)"

definition optimizers :: "event list \<Rightarrow> real list" where
  "optimizers t = concat (map (\<lambda>ev. case ev of BuildOptimizer wd \<Rightarrow> [wd] | _ \<Rightarrow> []) t)"

definition saves :: "event list \<Rightarrow> (string \<times> nat) list" where
  "saves t = concat (map (\<lambda>ev. case ev of Save f e \<Rightarrow> [(f, e)] | _ \<Rightarrow> []) t)"

text \<open>
  A relation between the state before a statement, its events and the state after it,
  kept by every run of the statement; and the relations that sequencing keeps.
\<close>

definition keeps :: "(state \<Rightarrow> event list \<Rightarrow> state \<Rightarrow> bool) \<Rightarrow> 'a prog \<Rightarrow> bool" where
  "keeps R m = (\<forall>s. R s (events_of (m s)) (state_of (m s)))"

definition composes :: "(state \<Rightarrow> event list \<Rightarrow> state \<Rightarrow> bool) \<Rightarrow> bool" where
  "composes R = ((\<forall>s. R s [] s) \<and>
     (\<forall>s t s' t' s''. R s t s' \<longrightarrow> R s' t' s'' \<longrightarrow> R s (t @ t') s''))"

text \<open>The parser's defaults, and a state with an empty working directory.\<close>

definition default_args :: args where
  "default_args = \<lparr>input_size = 640, batch_size = 32, local_rank = 0, epochs = 600,
     train_flag = False, test_flag = False, version = ''m'', zip_flag = False,
     world_size = 1, distributed = False\<rparr>"

definition fresh_state :: state where
  "fresh_state = \<lparr>weights_dir = False, log_disk = None, last_pt = None, best_pt = None,
     plot_png = False, plot_writable = True, result_zip = False,
     weight_decay = 5 / 10000, mosaic = False, best = 0\<rparr>"

definition quiet_externals :: externals where
  "quiet_externals = \<lparr>str_to_int = (\<lambda>str. if str = ''0'' then Some 0
        else if str = ''1'' then Some 1 else if str = ''2'' then Some 2 else None),
     loader_len = 2, grad_overflow = (\<lambda>k. False), avg_losses = (\<lambda>e. (0, 0, 0)),
     ap_metrics = (\<lambda>m. (0, 0, 0, 0)), mosaic_init = True\<rparr>"

text \<open>
  The micro-step events of the epochs \<open>0\<close> to \<open>E - 1\<close>, in the order of the two nested loops.
\<close>

definition epoch_steps :: "externals \<Rightarrow> args \<Rightarrow> int \<Rightarrow> nat \<Rightarrow> event list" where
  "epoch_steps x a acc E = concat (map (step_loop x a acc) [0..<E])"

text \<open>
  The events of an epoch up to the end of its inner loop, when the mosaic flag is \<open>m\<close> as
  the epoch starts.
\<close>

definition epoch_head :: "externals \<Rightarrow> args \<Rightarrow> int \<Rightarrow> nat \<Rightarrow> bool \<Rightarrow> event list" where
  "epoch_head x a acc e m =
     [TrainMode e] @ (if distributed a then [SetEpoch e] else []) @
     (if epochs a - int e = 10 then [MosaicOff e] else []) @
     [LoaderIter e (m \<and> epochs a - int e \<noteq> 10), ZeroGrad] @ step_loop x a acc e"

text \<open>
  Relations on a statement's run, for the sequencing rules: it takes no micro-step and
  leaves the mosaic flag alone; the metric log grows by the rows it wrote; it does not touch
  the process group.
\<close>

definition eval_quiet :: "state \<Rightarrow> event list \<Rightarrow> state \<Rightarrow> bool" where
  "eval_quiet s t s' =
     (micro_steps t = [] \<and> update_steps t = [] \<and> applied_steps t = [] \<and> ema_steps t = [] \<and>
      toggles t = [] \<and> iter_flags t = [] \<and> mosaic s' = mosaic s)"

definition log_grows :: "state \<Rightarrow> event list \<Rightarrow> state \<Rightarrow> bool" where
  "log_grows s t s' =
     (log_disk s' = map_option (\<lambda>rows. rows @ rows_written t) (log_disk s))"

definition group_events :: "event list \<Rightarrow> event list" where
  "group_events t = filter (\<lambda>ev. ev = InitProcessGroup \<or> ev = DestroyProcessGroup) t"

definition no_group :: "state \<Rightarrow> event list \<Rightarrow> state \<Rightarrow> bool" where
  "no_group s t s' = (group_events t = [])"

text \<open>The state in which the epoch loop of a run starts.\<close>

definition loop_start :: "externals \<Rightarrow> args \<Rightarrow> state \<Rightarrow> state" where
  "loop_start x a s = (state_of (train_setup x a s))\<lparr>log_disk := Some []\<rparr>"

definition epoch_loop :: "externals \<Rightarrow> args \<Rightarrow> int \<Rightarrow> state \<Rightarrow> event list \<times> state \<times> (error + unit)" where
  "epoch_loop x a acc s = for_each (epoch_range a) (epoch_body x a acc) (loop_start x a s)"

text \<open>
  Arguments, states and environments of concrete runs.
\<close>

definition secondary_args :: args where
  "secondary_args = default_args\<lparr>local_rank := 1, world_size := 2, distributed := True,
     train_flag := True\<rparr>"

definition used_state :: state where
  "used_state = fresh_state\<lparr>weights_dir := True,
     log_disk := Some [\<lparr>r_epoch = 1, r_losses = (0, 0, 0), r_metrics = (1 / 2, 0, 0, 0)\<rparr>]\<rparr>"

definition primary_args :: args where
  "primary_args = default_args\<lparr>train_flag := True, epochs := 2\<rparr>"

text \<open>An integer environment variable with its default: \<open>None\<close> when it is set to a string
  that \<^verbatim>\<open>int\<close> rejects.\<close>

definition env_int :: "externals \<Rightarrow> (string \<Rightarrow> string option) \<Rightarrow> string \<Rightarrow> int \<Rightarrow> int option" where
  "env_int x env name d = (case env name of None \<Rightarrow> Some d | Some v \<Rightarrow> str_to_int x v)"

definition secondary_env :: "string \<Rightarrow> string option" where
  "secondary_env = [''LOCAL_RANK'' \<mapsto> ''1'', ''WORLD_SIZE'' \<mapsto> ''2'']"

definition primary_env :: "string \<Rightarrow> string option" where
  "primary_env = [''LOCAL_RANK'' \<mapsto> ''0'', ''WORLD_SIZE'' \<mapsto> ''2'']"

section \<open>Properties\<close>

subsection \<open>Sequencing\<close>

lemma and_then_ret: "and_then (ret v) f = f v"
  by (simp add: and_then_def ret_def fun_eq_iff split: prod.splits)

lemma and_then_throw: "and_then (throw e) f = throw e"
  by (simp add: and_then_def throw_def fun_eq_iff)

lemma and_then_emit:
  "and_then (emit ev) f s = (case f () s of (t, s', r) \<Rightarrow> (ev # t, s', r))"
  by (simp add: and_then_def emit_def)

lemma and_then_emit_all:
  "and_then (emit_all evs) f s = (case f () s of (t, s', r) \<Rightarrow> (evs @ t, s', r))"
  by (simp add: and_then_def emit_all_def)

lemma and_then_modify: "and_then (modify g) f s = f () (g s)"
  by (simp add: and_then_def modify_def split: prod.splits)

lemma and_then_lift_Inr: "and_then (lift (Inr v)) f = f v"
  by (simp add: and_then_def lift_def fun_eq_iff split: prod.splits)

lemma and_then_lift_Inl: "and_then (lift (Inl e)) f = throw e"
  by (simp add: and_then_def lift_def throw_def fun_eq_iff)

lemma py_if_True: "py_if True m = m"
  by (simp add: py_if_def)

lemma py_if_False: "py_if False m = ret ()"
  by (simp add: py_if_def)

lemmas prog_simps = and_then_ret and_then_throw and_then_emit and_then_emit_all
  and_then_modify and_then_lift_Inr and_then_lift_Inl py_if_True py_if_False

lemma events_and_then:
  "events_of (and_then m f s) = events_of (m s) @
     (case result_of (m s) of Inl e \<Rightarrow> [] | Inr v \<Rightarrow> events_of (f v (state_of (m s))))"
  by (simp add: and_then_def events_of_def result_of_def state_of_def split: prod.splits sum.splits)

lemma result_and_then:
  "result_of (and_then m f s) =
     (case result_of (m s) of Inl e \<Rightarrow> Inl e | Inr v \<Rightarrow> result_of (f v (state_of (m s))))"
  by (simp add: and_then_def events_of_def result_of_def state_of_def split: prod.splits sum.splits)

lemma state_and_then:
  "state_of (and_then m f s) =
     (case result_of (m s) of Inl e \<Rightarrow> state_of (m s) | Inr v \<Rightarrow> state_of (f v (state_of (m s))))"
  by (simp add: and_then_def events_of_def result_of_def state_of_def split: prod.splits sum.splits)

lemma keeps_ret: "composes R \<Longrightarrow> keeps R (ret v)"
  by (simp add: keeps_def composes_def ret_def events_of_def state_of_def)

lemma keeps_throw: "composes R \<Longrightarrow> keeps R (throw e)"
  by (simp add: keeps_def composes_def throw_def events_of_def state_of_def)

lemma keeps_lift: "composes R \<Longrightarrow> keeps R (lift r)"
  by (simp add: keeps_def composes_def lift_def events_of_def state_of_def)

lemma keeps_emit: "(\<And>s. R s [ev] s) \<Longrightarrow> keeps R (emit ev)"
  by (simp add: keeps_def emit_def events_of_def state_of_def)

lemma keeps_emit_all: "(\<And>s. R s evs s) \<Longrightarrow> keeps R (emit_all evs)"
  by (simp add: keeps_def emit_all_def events_of_def state_of_def)

lemma keeps_modify: "(\<And>s. R s [] (g s)) \<Longrightarrow> keeps R (modify g)"
  by (simp add: keeps_def modify_def events_of_def state_of_def)

lemma keeps_and_then:
  assumes "composes R" "keeps R m" "\<And>v. keeps R (f v)"
  shows "keeps R (and_then m f)"
  unfolding keeps_def
proof
  fix s
  show "R s (events_of (and_then m f s)) (state_of (and_then m f s))"
  proof (cases "result_of (m s)")
    case (Inl e)
    then show ?thesis
      using assms(2) by (simp add: events_and_then state_and_then keeps_def)
  next
    case (Inr v)
    have "R s (events_of (m s)) (state_of (m s))"
      using assms(2) by (simp add: keeps_def)
    moreover have "R (state_of (m s)) (events_of (f v (state_of (m s)))) (state_of (f v (state_of (m s))))"
      using assms(3) by (simp add: keeps_def)
    ultimately show ?thesis
      using assms(1) Inr by (simp add: events_and_then state_and_then composes_def)
  qed
qed

lemma keeps_py_if: "composes R \<Longrightarrow> (c \<Longrightarrow> keeps R m) \<Longrightarrow> keeps R (py_if c m)"
  by (simp add: py_if_def keeps_ret)

lemma keeps_for_each:
  assumes "composes R" "\<And>v. keeps R (body v)"
  shows "keeps R (for_each xs body)"
  by (induction xs) (simp_all add: keeps_ret keeps_and_then assms)

subsection \<open>Rounding\<close>

lemma py_round_cases:
  "py_round x = round x \<or> (x - of_int \<lfloor>x\<rfloor> = 1 / 2 \<and> py_round x = \<lfloor>x\<rfloor> \<and> round x = \<lfloor>x\<rfloor> + 1)"
proof -
  define f where "f = \<lfloor>x\<rfloor>"
  have b: "of_int f \<le> x" "x < of_int f + 1"
    unfolding f_def by linarith+
  consider "x - of_int f < 1 / 2" | "1 / 2 < x - of_int f" | "x - of_int f = 1 / 2"
    by linarith
  then show ?thesis
  proof cases
    case 1
    have "\<lfloor>x + 1 / 2\<rfloor> = f"
      by (rule floor_unique) (use b 1 in auto)
    with 1 show ?thesis
      by (simp add: py_round_def round_def f_def Let_def)
  next
    case 2
    have "\<lfloor>x + 1 / 2\<rfloor> = f + 1"
      by (rule floor_unique) (use b 2 in auto)
    with 2 show ?thesis
      by (simp add: py_round_def round_def f_def Let_def)
  next
    case 3
    have "\<lfloor>x + 1 / 2\<rfloor> = f + 1"
      by (rule floor_unique) (use b 3 in auto)
    with 3 show ?thesis
      by (simp add: py_round_def round_def f_def Let_def)
  qed
qed

lemma odd_dvd_128:
  fixes m :: int
  assumes "odd m" "0 < m" "m dvd 128"
  shows "m = 1"
proof -
  have "coprime m 2"
    using assms(1) by (simp add: coprime_right_2_iff_odd)
  then have "coprime m (2 ^ 7)"
    by (simp only: coprime_power_right_iff) simp
  moreover have "m dvd 1 * 2 ^ 7"
    using assms(3) by simp
  ultimately have "m dvd 1"
    by (simp only: coprime_dvd_mult_left_iff)
  with assms(2) show ?thesis
    by (simp add: zdvd1_eq)
qed

lemma no_tie:
  fixes k f :: int
  assumes "0 < k" "64 / real_of_int k = of_int f + 1 / 2" 
  shows "f = 0"
proof -
  have "real_of_int (k * (2 * f + 1)) = 128"
    using assms by (simp add: field_simps)
  then have eq: "k * (2 * f + 1) = 128"
    by linarith
  have "0 < real_of_int f + 1 / 2"
    using assms by (metis divide_pos_pos of_int_0_less_iff zero_less_numeral)
  then have "0 \<le> f" by linarith
  have "2 * f + 1 dvd 128"
    using eq by (metis dvd_triv_right)
  then have "2 * f + 1 = 1"
    using \<open>0 \<le> f\<close> by (intro odd_dvd_128) auto
  then show ?thesis by simp
qed

lemma accumulate_spec:
  assumes "0 < k"
  shows "max (py_round (64 / real_of_int k)) 1 = max (round (64 / real_of_int k)) 1"
proof -
  let ?x = "64 / real_of_int k"
  from py_round_cases [of ?x] show ?thesis
  proof
    assume "py_round ?x = round ?x" then show ?thesis by simp
  next
    assume t: "?x - of_int \<lfloor>?x\<rfloor> = 1 / 2 \<and> py_round ?x = \<lfloor>?x\<rfloor> \<and> round ?x = \<lfloor>?x\<rfloor> + 1"
    then have "?x = of_int \<lfloor>?x\<rfloor> + 1 / 2" by linarith
    then have "\<lfloor>?x\<rfloor> = 0" using assms by (rule no_tie [rotated])
    with t have "py_round ?x = 0" and "round ?x = 1" by presburger+
    then show ?thesis by (simp only: max_def) simp
  qed
qed

subsection \<open>Traces\<close>

lemma update_steps_Nil: "update_steps [] = []"
  by (simp add: update_steps_def)

lemma update_steps_Cons:
  "update_steps (ev # t) = (case ev of ScalerStep k b \<Rightarrow> [k] | _ \<Rightarrow> []) @ update_steps t"
  by (simp add: update_steps_def)

lemma update_steps_append: "update_steps (t @ t') = update_steps t @ update_steps t'"
  by (simp add: update_steps_def)

lemma update_steps_concat: "update_steps (concat ts) = concat (map update_steps ts)"
  by (induction ts) (simp_all add: update_steps_Nil update_steps_append)

lemma applied_steps_Nil: "applied_steps [] = []"
  by (simp add: applied_steps_def)

lemma applied_steps_Cons:
  "applied_steps (ev # t) = (case ev of ScalerStep k b \<Rightarrow> (if b then [k] else []) | _ \<Rightarrow> []) @ applied_steps t"
  by (simp add: applied_steps_def)

lemma applied_steps_append: "applied_steps (t @ t') = applied_steps t @ applied_steps t'"
  by (simp add: applied_steps_def)

lemma applied_steps_concat: "applied_steps (concat ts) = concat (map applied_steps ts)"
  by (induction ts) (simp_all add: applied_steps_Nil applied_steps_append)

lemma ema_steps_Nil: "ema_steps [] = []"
  by (simp add: ema_steps_def)

lemma ema_steps_Cons:
  "ema_steps (ev # t) = (case ev of EmaUpdate k \<Rightarrow> [k] | _ \<Rightarrow> []) @ ema_steps t"
  by (simp add: ema_steps_def)

lemma ema_steps_append: "ema_steps (t @ t') = ema_steps t @ ema_steps t'"
  by (simp add: ema_steps_def)

lemma ema_steps_concat: "ema_steps (concat ts) = concat (map ema_steps ts)"
  by (induction ts) (simp_all add: ema_steps_Nil ema_steps_append)

lemma micro_steps_Nil: "micro_steps [] = []"
  by (simp add: micro_steps_def)

lemma micro_steps_Cons:
  "micro_steps (ev # t) = (case ev of Backward k \<Rightarrow> [k] | _ \<Rightarrow> []) @ micro_steps t"
  by (simp add: micro_steps_def)

lemma micro_steps_append: "micro_steps (t @ t') = micro_steps t @ micro_steps t'"
  by (simp add: micro_steps_def)

lemma micro_steps_concat: "micro_steps (concat ts) = concat (map micro_steps ts)"
  by (induction ts) (simp_all add: micro_steps_Nil micro_steps_append)

lemma toggles_Nil: "toggles [] = []"
  by (simp add: toggles_def)

lemma toggles_Cons:
  "toggles (ev # t) = (case ev of MosaicOff e \<Rightarrow> [e] | _ \<Rightarrow> []) @ toggles t"
  by (simp add: toggles_def)

lemma toggles_append: "toggles (t @ t') = toggles t @ toggles t'"
  by (simp add: toggles_def)

lemma toggles_concat: "toggles (concat ts) = concat (map toggles ts)"
  by (induction ts) (simp_all add: toggles_Nil toggles_append)

lemma iter_flags_Nil: "iter_flags [] = []"
  by (simp add: iter_flags_def)

lemma iter_flags_Cons:
  "iter_flags (ev # t) = (case ev of LoaderIter e f \<Rightarrow> [(e, f)] | _ \<Rightarrow> []) @ iter_flags t"
  by (simp add: iter_flags_def)

lemma iter_flags_append: "iter_flags (t @ t') = iter_flags t @ iter_flags t'"
  by (simp add: iter_flags_def)

lemma iter_flags_concat: "iter_flags (concat ts) = concat (map iter_flags ts)"
  by (induction ts) (simp_all add: iter_flags_Nil iter_flags_append)

lemma rows_written_Nil: "rows_written [] = []"
  by (simp add: rows_written_def)

lemma rows_written_Cons:
  "rows_written (ev # t) = (case ev of WriteRow r \<Rightarrow> [r] | _ \<Rightarrow> []) @ rows_written t"
  by (simp add: rows_written_def)

lemma rows_written_append: "rows_written (t @ t') = rows_written t @ rows_written t'"
  by (simp add: rows_written_def)

lemma rows_written_concat: "rows_written (concat ts) = concat (map rows_written ts)"
  by (induction ts) (simp_all add: rows_written_Nil rows_written_append)

lemma optimizers_Nil: "optimizers [] = []"
  by (simp add: optimizers_def)

lemma optimizers_Cons:
  "optimizers (ev # t) = (case ev of BuildOptimizer wd \<Rightarrow> [wd] | _ \<Rightarrow> []) @ optimizers t"
  by (simp add: optimizers_def)

lemma optimizers_append: "optimizers (t @ t') = optimizers t @ optimizers t'"
  by (simp add: optimizers_def)

lemma optimizers_concat: "optimizers (concat ts) = concat (map optimizers ts)"
  by (induction ts) (simp_all add: optimizers_Nil optimizers_append)

lemma saves_Nil: "saves [] = []"
  by (simp add: saves_def)

lemma saves_Cons:
  "saves (ev # t) = (case ev of Save f e \<Rightarrow> [(f, e)] | _ \<Rightarrow> []) @ saves t"
  by (simp add: saves_def)

lemma saves_append: "saves (t @ t') = saves t @ saves t'"
  by (simp add: saves_def)

lemma saves_concat: "saves (concat ts) = concat (map saves ts)"
  by (induction ts) (simp_all add: saves_Nil saves_append)

lemmas trace_simps =
  update_steps_Nil applied_steps_Nil ema_steps_Nil micro_steps_Nil toggles_Nil
  iter_flags_Nil rows_written_Nil optimizers_Nil saves_Nil
  update_steps_Cons applied_steps_Cons ema_steps_Cons micro_steps_Cons toggles_Cons
  iter_flags_Cons rows_written_Cons optimizers_Cons saves_Cons
  update_steps_append applied_steps_append ema_steps_append micro_steps_append
  toggles_append iter_flags_append rows_written_append optimizers_append saves_append

subsection \<open>The accumulation count and the weight decay\<close>

lemma supported_version_cases:
  assumes "version a \<in> {''n'', ''s'', ''m'', ''l'', ''x''}"
  shows "\<exists>name. build_model a = emit (BuildModel name)"
  using assms by (auto simp: build_model_def)

lemma accumulate_pos:
  assumes "1 \<le> batch_size a" "1 \<le> world_size a"
  shows "accumulate a = Inr (spec_accumulate (batch_size a) (world_size a))"
proof -
  have "0 < batch_size a * world_size a"
    using assms by simp
  then show ?thesis
    using accumulate_spec [of "batch_size a * world_size a"] assms
    by (auto simp add: accumulate_def spec_accumulate_def simp del: of_int_mult)
qed

lemma train_setup_run:
  assumes "build_model a = emit (BuildModel name)" "accumulate a = Inr acc"
  shows "train_setup x a s =
     ([BuildModel name,
       BuildOptimizer (weight_decay s * (of_int (batch_size a * world_size a * acc) / 64))] @
      (if local_rank a = 0 then [BuildEMA] else []) @ [BuildDataset True] @
      (if distributed a then [BuildSampler, WrapDDP (local_rank a)] else []),
      s\<lparr>weight_decay := weight_decay s * (of_int (batch_size a * world_size a * acc) / 64),
        mosaic := mosaic_init x, best := 0\<rparr>,
      Inr acc)"
  using assms
  by (simp add: train_setup_def scale_weight_decay_def build_optimizer_def
      and_then_def ret_def emit_def modify_def py_if_def lift_def)

text \<open>
  Claim C8. For every batch size and world size of at least 1, the accumulation count
  that \<^verbatim>\<open>train\<close> derives is \<open>max (round (64 / (batch_size * world_size))) 1\<close>, whichever
  way the rounding breaks a tie, so it is at least 1; and when the model variant is
  supported, the one optimizer that \<^verbatim>\<open>train\<close> builds gets the configured weight decay
  multiplied by \<open>batch_size * world_size * accumulate / 64\<close>, which is also the value left
  in \<^verbatim>\<open>params\<close>.
\<close>

theorem C8_accumulate_and_weight_decay:
  assumes "1 \<le> batch_size a" and "1 \<le> world_size a"
  shows "accumulate a = Inr (spec_accumulate (batch_size a) (world_size a)) \<and>
         1 \<le> spec_accumulate (batch_size a) (world_size a) \<and>
         (version a \<in> {''n'', ''s'', ''m'', ''l'', ''x''} \<longrightarrow>
            result_of (train_setup x a s) = Inr (spec_accumulate (batch_size a) (world_size a)) \<and>
            optimizers (events_of (train_setup x a s)) =
              [weight_decay s * (of_int (batch_size a) * of_int (world_size a) *
                 of_int (spec_accumulate (batch_size a) (world_size a)) / 64)] \<and>
            weight_decay (state_of (train_setup x a s)) =
              weight_decay s * (of_int (batch_size a) * of_int (world_size a) *
                 of_int (spec_accumulate (batch_size a) (world_size a)) / 64))"
proof -
  let ?acc = "spec_accumulate (batch_size a) (world_size a)"
  have acc: "accumulate a = Inr ?acc"
    using assms by (rule accumulate_pos)
  have pos: "1 \<le> ?acc"
    by (simp add: spec_accumulate_def)
  have "result_of (train_setup x a s) = Inr ?acc \<and>
        optimizers (events_of (train_setup x a s)) =
          [weight_decay s * (of_int (batch_size a) * of_int (world_size a) * of_int ?acc / 64)] \<and>
        weight_decay (state_of (train_setup x a s)) =
          weight_decay s * (of_int (batch_size a) * of_int (world_size a) * of_int ?acc / 64)"
    if v: "version a \<in> {''n'', ''s'', ''m'', ''l'', ''x''}"
  proof -
    obtain name where "build_model a = emit (BuildModel name)"
      using supported_version_cases [OF v] by blast
    then show ?thesis
      using acc
      by (simp add: train_setup_run result_of_def events_of_def state_of_def trace_simps)
  qed
  with acc pos show ?thesis by blast
qed

theorem C8_witness:
  "1 \<le> batch_size default_args \<and> 1 \<le> world_size default_args \<and>
   version default_args \<in> {''n'', ''s'', ''m'', ''l'', ''x''} \<and>
   accumulate default_args = Inr 2 \<and>
   optimizers (events_of (train_setup quiet_externals default_args fresh_state)) = [5 / 10000]"
  using C8_accumulate_and_weight_decay [of default_args quiet_externals fresh_state]
  by (simp add: default_args_def fresh_state_def spec_accumulate_def)

subsection \<open>Checkpoints at the end of an epoch\<close>

lemma saves_single: "saves [Save f e] = [(f, e)]" "saves [WriteRow r] = []" "saves [Flush] = []"
  by (simp_all add: saves_def)

lemma log_and_save_events:
  "events_of (log_and_save x a epoch m s) =
     [WriteRow \<lparr>r_epoch = epoch + 1, r_losses = avg_losses x epoch, r_metrics = m\<rparr>, Flush,
      Save (last_file a) (epoch + 1)] @
     (if best s \<le> fst m then [Save (best_file a) (epoch + 1)] else [])"
  by (simp add: log_and_save_def write_row_def update_best_def save_last_def save_best_def
      and_then_def modify_def events_of_def Let_def)

lemma log_and_save_state:
  "state_of (log_and_save x a epoch m s) =
     s\<lparr>log_disk := map_option (\<lambda>rows. rows @
          [\<lparr>r_epoch = epoch + 1, r_losses = avg_losses x epoch, r_metrics = m\<rparr>]) (log_disk s),
       best := max (best s) (fst m),
       last_pt := Some (new_ckpt epoch),
       best_pt := if best s \<le> fst m then Some (new_ckpt epoch) else best_pt s\<rparr>"
  by (simp add: log_and_save_def write_row_def update_best_def save_last_def save_best_def
      and_then_def modify_def state_of_def Let_def max_def)

lemma log_and_save_result: "result_of (log_and_save x a epoch m s) = Inr ()"
  by (simp add: log_and_save_def write_row_def update_best_def save_last_def save_best_def
      and_then_def modify_def result_of_def Let_def)

text \<open>
  Claim C1, as the code has it. At the end of an epoch, once \<^verbatim>\<open>test\<close> has returned, the
  last checkpoint is written in every case, and the best checkpoint is written if and
  only if the epoch's mAP is not below the best metric recorded so far: a strictly
  larger value and an exact tie both overwrite it. The recorded best becomes the larger
  of the two values.
\<close>

theorem C1_best_saved_iff_not_below:
  "saves (events_of (log_and_save x a epoch m s)) =
     (last_file a, epoch + 1) # (if best s \<le> fst m then [(best_file a, epoch + 1)] else []) \<and>
   last_pt (state_of (log_and_save x a epoch m s)) = Some (new_ckpt epoch) \<and>
   best_pt (state_of (log_and_save x a epoch m s)) =
     (if best s \<le> fst m then Some (new_ckpt epoch) else best_pt s) \<and>
   best (state_of (log_and_save x a epoch m s)) = max (best s) (fst m) \<and>
   result_of (log_and_save x a epoch m s) = Inr ()"
  by (simp add: log_and_save_events log_and_save_state log_and_save_result saves_def)

text \<open>
  Claim C1 at two inputs: with 0.30 recorded, an epoch with 0.25 writes only the last
  checkpoint, and an epoch with 0.40 writes both.
\<close>

theorem C1_witness:
  "saves (events_of (log_and_save quiet_externals default_args 2 (25 / 100, 0, 0, 0)
      (fresh_state\<lparr>best := 30 / 100\<rparr>))) = [(last_file default_args, 3)] \<and>
   saves (events_of (log_and_save quiet_externals default_args 3 (40 / 100, 0, 0, 0)
      (fresh_state\<lparr>best := 30 / 100\<rparr>))) =
     [(last_file default_args, 4), (best_file default_args, 4)]"
  using C1_best_saved_iff_not_below [of quiet_externals default_args 2 "(25 / 100, 0, 0, 0)"
      "fresh_state\<lparr>best := 30 / 100\<rparr>"]
    C1_best_saved_iff_not_below [of quiet_externals default_args 3 "(40 / 100, 0, 0, 0)"
      "fresh_state\<lparr>best := 30 / 100\<rparr>"]
  by simp

text \<open>
  Claim C1 as stated fails on a tie: two epochs in a row reach 0.3; at the second one
  the metric is not greater than the best so far, and the best checkpoint is written
  again.
\<close>

theorem C1_tie_overwrites_best:
  "\<not> best (state_of (log_and_save quiet_externals default_args 0 (3 / 10, 0, 0, 0)
        (fresh_state\<lparr>best := 0\<rparr>))) < 3 / 10 \<and>
   saves (events_of (log_and_save quiet_externals default_args 1 (3 / 10, 0, 0, 0)
     (state_of (log_and_save quiet_externals default_args 0 (3 / 10, 0, 0, 0)
        (fresh_state\<lparr>best := 0\<rparr>))))) =
     [(last_file default_args, 2), (best_file default_args, 2)]"
  by (simp add: log_and_save_events log_and_save_state saves_def)

text \<open>
  The scenario of the specification: the epochs reach 0.10, 0.30, 0.25 and 0.40; the best
  checkpoint is written at the epochs 1, 2 and 4, and the recorded best ends at 0.40.
\<close>

lemma checkpoint_scenario:
  "saves (events_of (for_each [0, 1, 2, 3]
      (\<lambda>e. log_and_save x a e ([10 / 100, 30 / 100, 25 / 100, 40 / 100] ! e, 0, 0, 0))
      (s\<lparr>best := 0\<rparr>))) =
   [(last_file a, 1), (best_file a, 1), (last_file a, 2), (best_file a, 2),
    (last_file a, 3), (last_file a, 4), (best_file a, 4)] \<and>
   best (state_of (for_each [0, 1, 2, 3]
      (\<lambda>e. log_and_save x a e ([10 / 100, 30 / 100, 25 / 100, 40 / 100] ! e, 0, 0, 0))
      (s\<lparr>best := 0\<rparr>))) = 40 / 100"
  by (simp add: events_and_then state_and_then result_and_then log_and_save_events
      log_and_save_state log_and_save_result saves_def ret_def events_of_def [of "([], _)"] state_of_def [of "([], _)"])

subsection \<open>The micro-steps of the nested loops\<close>

lemma micro_step_micro_steps:
  "micro_steps (micro_step x a acc e i) = [i + loader_len x * e]"
  by (simp add: micro_step_def trace_simps Let_def del: of_nat_add of_nat_mult)

lemma micro_step_update_steps:
  "update_steps (micro_step x a acc e i) =
     (if int (i + loader_len x * e) mod acc = 0 then [i + loader_len x * e] else [])"
  by (simp add: micro_step_def trace_simps Let_def del: of_nat_add of_nat_mult)

lemma micro_step_ema_steps:
  "ema_steps (micro_step x a acc e i) =
     (if local_rank a = 0 then update_steps (micro_step x a acc e i) else [])"
  by (simp add: micro_step_def trace_simps Let_def del: of_nat_add of_nat_mult)

lemma micro_step_applied_steps:
  "applied_steps (micro_step x a acc e i) =
     filter (\<lambda>k. \<not> grad_overflow x k) (update_steps (micro_step x a acc e i))"
  by (simp add: micro_step_def trace_simps Let_def del: of_nat_add of_nat_mult)

lemma concat_map_if_filter:
  "concat (map (\<lambda>i. if P (g i) then [g i] else []) xs) = filter P (map g xs)"
  by (induction xs) simp_all

lemma shifted_upt: "map (\<lambda>i. i + k) [0..<n] = [k..<k + n]"
  by (simp add: map_add_upt add.commute)

lemma step_loop_micro_steps:
  "micro_steps (step_loop x a acc e) = [loader_len x * e..<loader_len x * e + loader_len x]"
  by (simp add: step_loop_def micro_steps_concat comp_def micro_step_micro_steps shifted_upt)

lemma step_loop_update_steps:
  "update_steps (step_loop x a acc e) =
     filter (\<lambda>k. int k mod acc = 0) [loader_len x * e..<loader_len x * e + loader_len x]"
proof -
  have "update_steps (step_loop x a acc e) =
        concat (map (\<lambda>i. if int (i + loader_len x * e) mod acc = 0
                          then [i + loader_len x * e] else []) [0..<loader_len x])"
    by (simp add: step_loop_def update_steps_concat comp_def micro_step_update_steps
        del: of_nat_add of_nat_mult)
  also have "\<dots> = filter (\<lambda>k. int k mod acc = 0)
                     (map (\<lambda>i. i + loader_len x * e) [0..<loader_len x])"
    by (rule concat_map_if_filter [where g = "\<lambda>i. i + loader_len x * e"])
  finally show ?thesis
    by (simp only: shifted_upt)
qed

lemma step_loop_ema_steps:
  "ema_steps (step_loop x a acc e) =
     (if local_rank a = 0 then update_steps (step_loop x a acc e) else [])"
  by (simp add: step_loop_def ema_steps_concat update_steps_concat comp_def micro_step_ema_steps)

lemma step_loop_applied_steps:
  "applied_steps (step_loop x a acc e) =
     filter (\<lambda>k. \<not> grad_overflow x k) (update_steps (step_loop x a acc e))"
  by (simp add: step_loop_def applied_steps_concat update_steps_concat comp_def
      micro_step_applied_steps filter_concat)

lemma concat_blocks: "concat (map (\<lambda>e. [n * e..<n * e + n]) [0..<E]) = [0..<n * E]"
proof (induction E)
  case 0
  then show ?case by simp
next
  case (Suc E)
  have "[0..<n * E + n] = [0..<n * E] @ [n * E..<n * E + n]"
    by (rule upt_add_eq_append) simp
  moreover have "n * Suc E = n * E + n"
    by simp
  ultimately show ?case
    using Suc by (simp del: mult_Suc_right)
qed

lemma concat_filter_blocks:
  "concat (map (\<lambda>e. filter P [n * e..<n * e + n]) [0..<E]) = filter P [0..<n * E]"
proof -
  have "concat (map (\<lambda>e. filter P [n * e..<n * e + n]) [0..<E]) =
        filter P (concat (map (\<lambda>e. [n * e..<n * e + n]) [0..<E]))"
    by (simp add: filter_concat comp_def)
  then show ?thesis by (simp add: concat_blocks)
qed

lemma epoch_steps_micro_steps:
  "micro_steps (epoch_steps x a acc E) = [0..<loader_len x * E]"
  by (simp add: epoch_steps_def micro_steps_concat comp_def step_loop_micro_steps concat_blocks)

lemma epoch_steps_update_steps:
  "update_steps (epoch_steps x a acc E) = filter (\<lambda>k. int k mod acc = 0) [0..<loader_len x * E]"
  by (simp add: epoch_steps_def update_steps_concat comp_def step_loop_update_steps
      concat_filter_blocks)

lemma epoch_steps_ema_steps:
  "ema_steps (epoch_steps x a acc E) =
     (if local_rank a = 0 then update_steps (epoch_steps x a acc E) else [])"
  by (simp add: epoch_steps_def ema_steps_concat update_steps_concat comp_def step_loop_ema_steps)

lemma epoch_steps_applied_steps:
  "applied_steps (epoch_steps x a acc E) =
     filter (\<lambda>k. \<not> grad_overflow x k) (update_steps (epoch_steps x a acc E))"
  by (simp add: epoch_steps_def applied_steps_concat update_steps_concat comp_def
      step_loop_applied_steps filter_concat)

lemma count_upto_Suc:
  fixes A :: nat
  shows "length (filter (\<lambda>k. k mod A = 0) [0..<Suc N]) = Suc (N div A)"
proof (induction N)
  case 0
  show ?case by simp
next
  case (Suc N)
  have "length (filter (\<lambda>k. k mod A = 0) [0..<Suc (Suc N)]) =
        length (filter (\<lambda>k. k mod A = 0) [0..<Suc N]) + (if Suc N mod A = 0 then 1 else 0)"
    by simp
  also have "\<dots> = Suc (N div A) + (if Suc N mod A = 0 then 1 else 0)"
    by (simp only: Suc.IH)
  also have "\<dots> = Suc (Suc N div A)"
    by (simp add: div_Suc)
  finally show ?case .
qed

lemma count_multiples_nat:
  fixes A :: nat
  assumes "0 < A"
  shows "length (filter (\<lambda>k. k mod A = 0) [0..<N]) = (N + A - 1) div A"
proof (cases N)
  case 0
  then show ?thesis using assms by simp
next
  case (Suc M)
  have "(Suc M + A - 1) div A = (M + A) div A"
    by simp
  also have "\<dots> = Suc (M div A)"
    using assms by simp
  finally show ?thesis
    using Suc by (simp only: count_upto_Suc)
qed

lemma count_multiples:
  assumes "1 \<le> acc"
  shows "int (length (filter (\<lambda>k. int k mod acc = 0) [0..<N])) = (int N + acc - 1) div acc"
proof -
  define A where "A = nat acc"
  have A: "acc = int A" "0 < A"
    using assms by (simp_all add: A_def)
  have "(\<lambda>k. int k mod acc = 0) = (\<lambda>k. k mod A = 0)"
    by (simp add: A(1) flip: zmod_int)
  then have "int (length (filter (\<lambda>k. int k mod acc = 0) [0..<N])) = int ((N + A - 1) div A)"
    by (simp add: count_multiples_nat [OF A(2)])
  also have "\<dots> = (int N + acc - 1) div acc"
    using A(2) by (simp add: A(1) zdiv_int of_nat_diff)
  finally show ?thesis .
qed

lemma ceil_div_split:
  fixes acc :: int
  assumes "1 \<le> acc" "0 \<le> N"
  shows "(N + acc - 1) div acc = N div acc + (if N mod acc = 0 then 0 else 1)"
proof (cases "N mod acc = 0")
  case True
  then obtain q where "N = acc * q" by auto
  then have "(N + acc - 1) div acc = (acc - 1 + q * acc) div acc"
    by (simp add: algebra_simps)
  also have "\<dots> = (acc - 1) div acc + q"
    using assms(1) by (subst div_mult_self1) auto
  also have "(acc - 1) div acc = 0"
    using assms(1) by (simp add: div_pos_pos_trivial)
  finally show ?thesis
    using True \<open>N = acc * q\<close> assms(1) by simp
next
  case False
  define r where "r = N mod acc"
  define q where "q = N div acc"
  have N: "N = r + q * acc"
    by (simp add: r_def q_def)
  have r: "0 < r" "r < acc"
    using False assms by (simp_all add: r_def) (smt (verit) pos_mod_sign pos_mod_bound)+
  have "(N + acc - 1) div acc = ((r - 1) + (q + 1) * acc) div acc"
    by (simp add: N algebra_simps)
  also have "\<dots> = (r - 1) div acc + (q + 1)"
    using assms(1) by (subst div_mult_self1) auto
  also have "(r - 1) div acc = 0"
    using r by (simp add: div_pos_pos_trivial)
  finally show ?thesis
    using False by (simp add: q_def)
qed

subsection \<open>One epoch and the loop over the epochs\<close>

lemma composes_eval_quiet: "composes eval_quiet"
  by (simp add: composes_def eval_quiet_def trace_simps)

lemma composes_log_grows: "composes log_grows"
  by (simp add: composes_def log_grows_def trace_simps option.map_comp comp_def option.map_ident)

lemma composes_no_group: "composes no_group"
  by (simp add: composes_def no_group_def group_events_def)

lemma epoch_body_run:
  "epoch_body x a acc e s =
     (case py_if (local_rank a = 0) (epoch_end x a e)
             (s\<lparr>mosaic := mosaic s \<and> epochs a - int e \<noteq> 10\<rparr>) of
        (t, s', r) \<Rightarrow> (epoch_head x a acc e (mosaic s) @ t, s', r))"
  by (simp add: epoch_body_def epoch_head_def mosaic_toggle_def loader_iter_def py_if_def
      and_then_def emit_def emit_all_def modify_def ret_def split: prod.splits)

lemma keeps_plot_mAP_quiet: "keeps eval_quiet (plot_mAP a)"
  by (simp add: keeps_def plot_mAP_def eval_quiet_def events_of_def state_of_def trace_simps
      split: option.splits)

lemma keeps_load_best_quiet: "keeps eval_quiet (load_best a)"
  by (simp add: keeps_def load_best_def eval_quiet_def events_of_def state_of_def trace_simps
      split: option.splits)

lemma keeps_test_quiet: "keeps eval_quiet (test x a m)"
  unfolding test_def
  by (intro keeps_and_then keeps_emit keeps_ret keeps_plot_mAP_quiet composes_eval_quiet)
    (auto simp: eval_quiet_def trace_simps keeps_ret keeps_load_best_quiet composes_eval_quiet
      split: option.splits)

lemma keeps_log_and_save_quiet: "keeps eval_quiet (log_and_save x a e m)"
  by (simp add: keeps_def eval_quiet_def log_and_save_events log_and_save_state trace_simps)

lemma keeps_epoch_end_quiet: "keeps eval_quiet (epoch_end x a e)"
  unfolding epoch_end_def
  by (intro keeps_and_then composes_eval_quiet keeps_test_quiet keeps_log_and_save_quiet)

lemma events_of_triple: "events_of (t, s, r) = t"
  by (simp add: events_of_def)

lemma state_of_triple: "state_of (t, s, r) = s"
  by (simp add: state_of_def)

lemma result_of_triple: "result_of (t, s, r) = r"
  by (simp add: result_of_def)

lemmas triple_simps = events_of_triple state_of_triple result_of_triple

lemma triple_collapse: "(events_of r, state_of r, result_of r) = r"
  by (simp add: events_of_def state_of_def result_of_def)

lemma ret_run:
  "events_of (ret v s) = []" "state_of (ret v s) = s" "result_of (ret v s) = Inr v"
  by (simp_all add: ret_def triple_simps)

lemma epoch_body_events:
  "events_of (epoch_body x a acc e s) = epoch_head x a acc e (mosaic s) @
     events_of (py_if (local_rank a = 0) (epoch_end x a e)
        (s\<lparr>mosaic := mosaic s \<and> epochs a - int e \<noteq> 10\<rparr>))"
  by (simp add: epoch_body_run events_of_def split: prod.splits)

lemma epoch_body_state:
  "state_of (epoch_body x a acc e s) =
     state_of (py_if (local_rank a = 0) (epoch_end x a e)
        (s\<lparr>mosaic := mosaic s \<and> epochs a - int e \<noteq> 10\<rparr>))"
  by (simp add: epoch_body_run state_of_def split: prod.splits)

lemma epoch_body_result:
  "result_of (epoch_body x a acc e s) =
     result_of (py_if (local_rank a = 0) (epoch_end x a e)
        (s\<lparr>mosaic := mosaic s \<and> epochs a - int e \<noteq> 10\<rparr>))"
  by (simp add: epoch_body_run result_of_def split: prod.splits)

lemma micro_step_quiet:
  "toggles (micro_step x a acc e i) = []" "iter_flags (micro_step x a acc e i) = []"
  "rows_written (micro_step x a acc e i) = []" "saves (micro_step x a acc e i) = []"
  "group_events (micro_step x a acc e i) = []"
  by (simp_all add: micro_step_def trace_simps group_events_def Let_def)

lemma step_loop_quiet:
  "toggles (step_loop x a acc e) = []" "iter_flags (step_loop x a acc e) = []"
  "rows_written (step_loop x a acc e) = []" "saves (step_loop x a acc e) = []"
  "group_events (step_loop x a acc e) = []"
  by (simp_all add: step_loop_def toggles_concat iter_flags_concat rows_written_concat
      saves_concat comp_def micro_step_quiet group_events_def filter_concat
      micro_step_quiet(5) [unfolded group_events_def])

lemma epoch_head_traces:
  "toggles (epoch_head x a acc e m) = (if epochs a - int e = 10 then [e] else [])"
  "iter_flags (epoch_head x a acc e m) = [(e, m \<and> epochs a - int e \<noteq> 10)]"
  "micro_steps (epoch_head x a acc e m) = micro_steps (step_loop x a acc e)"
  "update_steps (epoch_head x a acc e m) = update_steps (step_loop x a acc e)"
  "ema_steps (epoch_head x a acc e m) = ema_steps (step_loop x a acc e)"
  "applied_steps (epoch_head x a acc e m) = applied_steps (step_loop x a acc e)"
  "rows_written (epoch_head x a acc e m) = []"
  "saves (epoch_head x a acc e m) = []"
  by (simp_all add: epoch_head_def trace_simps step_loop_quiet)

lemma group_events_epoch_head: "group_events (epoch_head x a acc e m) = []"
  using step_loop_quiet(5) [of x a acc e] by (simp add: epoch_head_def group_events_def)

lemma keeps_tail_quiet: "keeps eval_quiet (py_if c (epoch_end x a e))"
  by (intro keeps_py_if composes_eval_quiet keeps_epoch_end_quiet)

lemma tail_quiet:
  "eval_quiet s (events_of (py_if c (epoch_end x a e) s)) (state_of (py_if c (epoch_end x a e) s))"
  using keeps_tail_quiet by (simp add: keeps_def)

lemma epoch_body_toggles:
  "toggles (events_of (epoch_body x a acc e s)) = (if epochs a - int e = 10 then [e] else [])"
  using tail_quiet [of "s\<lparr>mosaic := mosaic s \<and> epochs a - int e \<noteq> 10\<rparr>" "local_rank a = 0" x a e]
  by (simp add: epoch_body_events trace_simps epoch_head_traces eval_quiet_def)

lemma epoch_body_iter_flags:
  "iter_flags (events_of (epoch_body x a acc e s)) = [(e, mosaic s \<and> epochs a - int e \<noteq> 10)]"
  using tail_quiet [of "s\<lparr>mosaic := mosaic s \<and> epochs a - int e \<noteq> 10\<rparr>" "local_rank a = 0" x a e]
  by (simp add: epoch_body_events trace_simps epoch_head_traces eval_quiet_def)

lemma epoch_body_mosaic:
  "mosaic (state_of (epoch_body x a acc e s)) = (mosaic s \<and> epochs a - int e \<noteq> 10)"
  using tail_quiet [of "s\<lparr>mosaic := mosaic s \<and> epochs a - int e \<noteq> 10\<rparr>" "local_rank a = 0" x a e]
  by (simp add: epoch_body_state eval_quiet_def)

lemma epoch_body_steps:
  "micro_steps (events_of (epoch_body x a acc e s)) = micro_steps (step_loop x a acc e)"
  "update_steps (events_of (epoch_body x a acc e s)) = update_steps (step_loop x a acc e)"
  "ema_steps (events_of (epoch_body x a acc e s)) = ema_steps (step_loop x a acc e)"
  "applied_steps (events_of (epoch_body x a acc e s)) = applied_steps (step_loop x a acc e)"
  using tail_quiet [of "s\<lparr>mosaic := mosaic s \<and> epochs a - int e \<noteq> 10\<rparr>" "local_rank a = 0" x a e]
  by (simp_all add: epoch_body_events trace_simps epoch_head_traces eval_quiet_def)

lemma epoch_body_secondary:
  "local_rank a \<noteq> 0 \<Longrightarrow> result_of (epoch_body x a acc e s) = Inr ()"
  by (simp add: epoch_body_result py_if_def ret_run)

text \<open>The loop over the epochs, when it returns.\<close>

lemma for_each_Cons_events:
  "events_of (for_each (e # es) body s) = events_of (body e s) @
     (case result_of (body e s) of Inl err \<Rightarrow> []
      | Inr u \<Rightarrow> events_of (for_each es body (state_of (body e s))))"
  by (simp add: events_and_then)

lemma for_each_Cons_result:
  "result_of (for_each (e # es) body s) =
     (case result_of (body e s) of Inl err \<Rightarrow> Inl err
      | Inr u \<Rightarrow> result_of (for_each es body (state_of (body e s))))"
  by (simp add: result_and_then)

lemma for_each_Cons_state:
  "state_of (for_each (e # es) body s) =
     (case result_of (body e s) of Inl err \<Rightarrow> state_of (body e s)
      | Inr u \<Rightarrow> state_of (for_each es body (state_of (body e s))))"
  by (simp add: state_and_then)

lemma for_each_Nil_run:
  "events_of (for_each [] body s) = []" "state_of (for_each [] body s) = s"
  "result_of (for_each [] body s) = Inr ()"
  by (simp_all add: ret_run)

lemmas for_each_runs = for_each_Nil_run for_each_Cons_events for_each_Cons_result
  for_each_Cons_state

declare for_each.simps [simp del]

lemma loop_secondary_returns:
  "local_rank a \<noteq> 0 \<Longrightarrow> result_of (for_each es (epoch_body x a acc) s) = Inr ()"
  by (induction es arbitrary: s) (simp_all add: for_each_runs epoch_body_secondary)

subsection \<open>The set-up and the whole of \<^verbatim>\<open>train\<close>\<close>

lemma build_model_cases:
  "(\<exists>name. build_model a = emit (BuildModel name)) \<or> build_model a = throw ValueError"
  by (auto simp: build_model_def)

lemma train_setup_raises_version:
  "build_model a = throw ValueError \<Longrightarrow> train_setup x a s = ([], s, Inl ValueError)"
  by (simp add: train_setup_def and_then_throw) (simp add: throw_def)

lemma train_setup_raises_division:
  "build_model a = emit (BuildModel name) \<Longrightarrow> accumulate a = Inl err \<Longrightarrow>
   train_setup x a s = ([BuildModel name], s, Inl err)"
  by (simp add: train_setup_def and_then_def emit_def lift_def)

lemma train_setup_returns:
  assumes "result_of (train_setup x a s) = Inr acc"
  shows "\<exists>name. build_model a = emit (BuildModel name) \<and> accumulate a = Inr acc"
proof -
  from build_model_cases [of a] obtain name where b: "build_model a = emit (BuildModel name)"
    using assms by (auto simp: train_setup_raises_version triple_simps)
  show ?thesis
  proof (cases "accumulate a")
    case (Inl err)
    with b assms show ?thesis
      by (simp add: train_setup_raises_division triple_simps)
  next
    case (Inr acc')
    with b assms show ?thesis
      by (auto simp: train_setup_run triple_simps)
  qed
qed

lemma train_setup_quiet:
  assumes "result_of (train_setup x a s) = Inr acc"
  shows "toggles (events_of (train_setup x a s)) = []"
    "iter_flags (events_of (train_setup x a s)) = []"
    "rows_written (events_of (train_setup x a s)) = []"
    "micro_steps (events_of (train_setup x a s)) = []"
    "update_steps (events_of (train_setup x a s)) = []"
    "ema_steps (events_of (train_setup x a s)) = []"
    "applied_steps (events_of (train_setup x a s)) = []"
    "mosaic (state_of (train_setup x a s)) = mosaic_init x"
    "weights_dir (state_of (train_setup x a s)) = weights_dir s"
    "saves (events_of (train_setup x a s)) = []"
proof -
  obtain name where "build_model a = emit (BuildModel name)" "accumulate a = Inr acc"
    using train_setup_returns [OF assms] by blast
  then have run: "train_setup x a s =
     ([BuildModel name,
       BuildOptimizer (weight_decay s * (of_int (batch_size a * world_size a * acc) / 64))] @
      (if local_rank a = 0 then [BuildEMA] else []) @ [BuildDataset True] @
      (if distributed a then [BuildSampler, WrapDDP (local_rank a)] else []),
      s\<lparr>weight_decay := weight_decay s * (of_int (batch_size a * world_size a * acc) / 64),
        mosaic := mosaic_init x, best := 0\<rparr>,
      Inr acc)"
    by (rule train_setup_run)
  show "toggles (events_of (train_setup x a s)) = []"
    "iter_flags (events_of (train_setup x a s)) = []"
    "rows_written (events_of (train_setup x a s)) = []"
    "micro_steps (events_of (train_setup x a s)) = []"
    "update_steps (events_of (train_setup x a s)) = []"
    "ema_steps (events_of (train_setup x a s)) = []"
    "applied_steps (events_of (train_setup x a s)) = []"
    "mosaic (state_of (train_setup x a s)) = mosaic_init x"
    "weights_dir (state_of (train_setup x a s)) = weights_dir s"
    "saves (events_of (train_setup x a s)) = []"
    by (simp_all only: run triple_simps) (simp_all add: trace_simps)
qed

lemma train_run:
  assumes "result_of (train_setup x a s) = Inr acc" and "weights_dir s"
  shows "result_of (train x a s) = result_of (epoch_loop x a acc s)"
    and "events_of (train x a s) =
      events_of (train_setup x a s) @ [OpenWrite (csv_file a)] @
      (if local_rank a = 0 then [WriteHeader] else []) @
      events_of (epoch_loop x a acc s) @ [CloseLog] @
      (if local_rank a = 0 \<and> result_of (epoch_loop x a acc s) = Inr ()
       then [StripOptimizer (last_file a), StripOptimizer (best_file a)] else [])"
    and "log_disk (state_of (train x a s)) = log_disk (state_of (epoch_loop x a acc s))"
    and "mosaic (state_of (train x a s)) = mosaic (state_of (epoch_loop x a acc s))"
proof -
  obtain t0 s0 where su: "train_setup x a s = (t0, s0, Inr acc)"
    using assms(1) by (cases "train_setup x a s") (auto simp: triple_simps)
  have wd: "weights_dir s0"
    using train_setup_quiet(9) [OF assms(1)] assms(2) by (simp add: su triple_simps)
  obtain t s' r where loop: "for_each (epoch_range a) (epoch_body x a acc) (s0\<lparr>log_disk := Some []\<rparr>) = (t, s', r)"
    by (cases "for_each (epoch_range a) (epoch_body x a acc) (s0\<lparr>log_disk := Some []\<rparr>)") auto
  have el: "epoch_loop x a acc s = (t, s', r)"
    by (simp add: epoch_loop_def loop_start_def su triple_simps loop)
  show "result_of (train x a s) = result_of (epoch_loop x a acc s)"
    using wd
    by (cases r)
      (simp_all add: el train_def with_log_def open_log_def strip_optimizer_def and_then_def
        py_if_def emit_def ret_def su loop triple_simps)
  show "events_of (train x a s) =
      events_of (train_setup x a s) @ [OpenWrite (csv_file a)] @
      (if local_rank a = 0 then [WriteHeader] else []) @
      events_of (epoch_loop x a acc s) @ [CloseLog] @
      (if local_rank a = 0 \<and> result_of (epoch_loop x a acc s) = Inr ()
       then [StripOptimizer (last_file a), StripOptimizer (best_file a)] else [])"
    using wd
    by (cases r)
      (simp_all add: el train_def with_log_def open_log_def strip_optimizer_def and_then_def
        py_if_def emit_def ret_def su loop triple_simps)
  show "log_disk (state_of (train x a s)) = log_disk (state_of (epoch_loop x a acc s))"
    using wd
    by (cases r)
      (simp_all add: el train_def with_log_def open_log_def strip_optimizer_def and_then_def
        py_if_def emit_def ret_def su loop triple_simps)
  show "mosaic (state_of (train x a s)) = mosaic (state_of (epoch_loop x a acc s))"
    using wd
    by (cases r)
      (simp_all add: el train_def with_log_def open_log_def strip_optimizer_def and_then_def
        py_if_def emit_def ret_def su loop triple_simps)
qed

lemma filter_eq_upt: "filter (\<lambda>e. e = k) [0..<n] = (if k < n then [k] else [])"
  by (induction n) auto

lemma supported_setup:
  assumes "version a \<in> {''n'', ''s'', ''m'', ''l'', ''x''}" "batch_size a * world_size a \<noteq> 0"
  shows "\<exists>acc. result_of (train_setup x a s) = Inr acc"
proof -
  obtain name where "build_model a = emit (BuildModel name)"
    using supported_version_cases [OF assms(1)] by blast
  moreover obtain acc where "accumulate a = Inr acc"
    using assms(2) by (simp add: accumulate_def)
  ultimately show ?thesis
    by (auto simp: train_setup_run triple_simps)
qed

lemma train_secondary_returns:
  assumes "version a \<in> {''n'', ''s'', ''m'', ''l'', ''x''}" "batch_size a * world_size a \<noteq> 0"
    and "weights_dir s" "local_rank a \<noteq> 0"
  shows "result_of (train x a s) = Inr ()"
proof -
  obtain acc where su: "result_of (train_setup x a s) = Inr acc"
    using supported_setup [OF assms(1,2)] by blast
  show ?thesis
    by (simp add: train_run(1) [OF su assms(3)] epoch_loop_def loop_secondary_returns [OF assms(4)])
qed

lemma secondary_run_returns:
  "result_of (train x (secondary_args\<lparr>epochs := n\<rparr>) used_state) = Inr ()"
  by (rule train_secondary_returns) (simp_all add: secondary_args_def default_args_def used_state_def)

subsection \<open>The metric log\<close>

lemma keeps_plot_mAP_log: "keeps log_grows (plot_mAP a)"
  by (simp add: keeps_def plot_mAP_def log_grows_def triple_simps trace_simps option.map_ident
      split: option.splits)

lemma keeps_load_best_log: "keeps log_grows (load_best a)"
  by (simp add: keeps_def load_best_def log_grows_def triple_simps trace_simps option.map_ident
      split: option.splits)

lemma log_grows_same: "rows_written t = [] \<Longrightarrow> log_grows s t s"
  by (simp add: log_grows_def option.map_ident)

lemma keeps_test_log: "keeps log_grows (test x a m)"
  unfolding test_def
  by (intro keeps_and_then keeps_emit keeps_ret keeps_plot_mAP_log composes_log_grows
      log_grows_same)
    (auto simp: trace_simps keeps_ret keeps_load_best_log composes_log_grows
      split: option.splits)

lemma keeps_log_and_save_log: "keeps log_grows (log_and_save x a e m)"
  by (simp add: keeps_def log_grows_def log_and_save_events log_and_save_state trace_simps)

lemma keeps_epoch_end_log: "keeps log_grows (epoch_end x a e)"
  unfolding epoch_end_def
  by (intro keeps_and_then composes_log_grows keeps_test_log keeps_log_and_save_log)

lemma keeps_epoch_body_log: "keeps log_grows (epoch_body x a acc e)"
proof -
  have "log_grows s (events_of (epoch_body x a acc e s)) (state_of (epoch_body x a acc e s))" for s
  proof -
    let ?s1 = "s\<lparr>mosaic := mosaic s \<and> epochs a - int e \<noteq> 10\<rparr>"
    have "keeps log_grows (py_if (local_rank a = 0) (epoch_end x a e))"
      by (intro keeps_py_if composes_log_grows keeps_epoch_end_log)
    then have "log_grows ?s1 (events_of (py_if (local_rank a = 0) (epoch_end x a e) ?s1))
        (state_of (py_if (local_rank a = 0) (epoch_end x a e) ?s1))"
      by (simp add: keeps_def)
    then show ?thesis
      by (simp add: epoch_body_events epoch_body_state log_grows_def trace_simps
          epoch_head_traces)
  qed
  then show ?thesis
    by (simp add: keeps_def)
qed

lemma loop_log:
  "log_disk (state_of (for_each es (epoch_body x a acc) s)) =
     map_option (\<lambda>rows. rows @ rows_written (events_of (for_each es (epoch_body x a acc) s)))
       (log_disk s)"
proof -
  have "keeps log_grows (for_each es (epoch_body x a acc))"
    by (rule keeps_for_each [OF composes_log_grows]) (rule keeps_epoch_body_log)
  then show ?thesis
    by (simp add: keeps_def log_grows_def)
qed

lemma train_log:
  assumes "result_of (train_setup x a s) = Inr acc" and "weights_dir s"
  shows "log_disk (state_of (train x a s)) = Some (rows_written (events_of (train x a s)))"
proof -
  have "log_disk (state_of (epoch_loop x a acc s)) =
        Some (rows_written (events_of (epoch_loop x a acc s)))"
    by (simp add: epoch_loop_def loop_log loop_start_def)
  then show ?thesis
    by (simp add: train_run(2,3) [OF assms] trace_simps train_setup_quiet [OF assms(1)])
qed

lemma epoch_body_secondary_events:
  "local_rank a \<noteq> 0 \<Longrightarrow> events_of (epoch_body x a acc e s) = epoch_head x a acc e (mosaic s)"
  by (simp add: epoch_body_events py_if_def ret_run)

lemma loop_secondary_quiet:
  "local_rank a \<noteq> 0 \<Longrightarrow>
   rows_written (events_of (for_each es (epoch_body x a acc) s)) = [] \<and>
   saves (events_of (for_each es (epoch_body x a acc) s)) = []"
  by (induction es arbitrary: s)
    (simp_all add: for_each_runs trace_simps epoch_body_secondary_events epoch_head_traces
      split: sum.splits)

text \<open>A process of another rank writes no row and saves no checkpoint in \<^verbatim>\<open>train\<close>.\<close>

lemma train_secondary_quiet:
  assumes "result_of (train_setup x a s) = Inr acc" and "weights_dir s"
    and "local_rank a \<noteq> 0"
  shows "rows_written (events_of (train x a s)) = [] \<and> saves (events_of (train x a s)) = []"
  using loop_secondary_quiet [OF assms(3), of "epoch_range a" x acc "loop_start x a s"] assms(3)
  by (simp add: train_run(2) [OF assms(1,2)] trace_simps train_setup_quiet [OF assms(1)]
      epoch_loop_def)

lemma csv_file_cong: "version a = version b \<Longrightarrow> epochs a = epochs b \<Longrightarrow> csv_file a = csv_file b"
  by (simp add: csv_file_def run_tag_def)

text \<open>
  Claim C10. When \<^verbatim>\<open>train\<close> gets as far as the metric log (the model, the optimizer and
  the loader were built and the weights directory exists), it opens
  \<^verbatim>\<open>weights/step_<version>_<epochs>.csv\<close> for writing after the set-up and before the first
  epoch; the epoch loop starts with a log that has no rows, whatever an earlier run left
  there; and when \<^verbatim>\<open>train\<close> ends, the rows in the file are exactly the rows this run
  wrote.
\<close>

theorem C10_log_truncated_at_start:
  assumes "result_of (train_setup x a s) = Inr acc" and "weights_dir s"
  shows "events_of (train x a s) =
           events_of (train_setup x a s) @ [OpenWrite (csv_file a)] @
           (if local_rank a = 0 then [WriteHeader] else []) @
           events_of (for_each (epoch_range a) (epoch_body x a acc) (loop_start x a s)) @
           [CloseLog] @
           (if local_rank a = 0 \<and>
               result_of (for_each (epoch_range a) (epoch_body x a acc) (loop_start x a s)) = Inr ()
            then [StripOptimizer (last_file a), StripOptimizer (best_file a)] else []) \<and>
         log_disk (loop_start x a s) = Some [] \<and>
         log_disk (state_of (train x a s)) = Some (rows_written (events_of (train x a s))) \<and>
         csv_file a = ''weights/step_'' @ version a @ ''_'' @ str_int (epochs a) @ ''.csv''"
  using train_run(2) [OF assms] train_log [OF assms]
  by (simp add: epoch_loop_def loop_start_def csv_file_def run_tag_def)

text \<open>
  Claim C10 at a concrete input: the log of an earlier run holds one row; after the run
  of a process that writes no rows the file is empty.
\<close>

theorem C10_witness:
  "result_of (train_setup quiet_externals (secondary_args\<lparr>epochs := 1\<rparr>) used_state) = Inr 1 \<and>
   weights_dir used_state \<and>
   log_disk used_state = Some [\<lparr>r_epoch = 1, r_losses = (0, 0, 0), r_metrics = (1 / 2, 0, 0, 0)\<rparr>] \<and>
   log_disk (state_of (train quiet_externals (secondary_args\<lparr>epochs := 1\<rparr>) used_state)) = Some []"
proof -
  have su: "result_of (train_setup quiet_externals (secondary_args\<lparr>epochs := 1\<rparr>) used_state) = Inr 1"
    by (simp add: train_setup_def build_model_def accumulate_def scale_weight_decay_def
        build_optimizer_def py_round_def and_then_def emit_def lift_def modify_def py_if_def
        ret_def triple_simps secondary_args_def default_args_def Let_def)
  have wd: "weights_dir used_state"
    by (simp add: used_state_def)
  have old: "log_disk used_state =
      Some [\<lparr>r_epoch = 1, r_losses = (0, 0, 0), r_metrics = (1 / 2, 0, 0, 0)\<rparr>]"
    by (simp add: used_state_def)
  have "local_rank (secondary_args\<lparr>epochs := 1\<rparr>) \<noteq> 0"
    by (simp add: secondary_args_def)
  then have none: "rows_written
      (events_of (train quiet_externals (secondary_args\<lparr>epochs := 1\<rparr>) used_state)) = []"
    using train_secondary_quiet [OF su wd] by blast
  have "log_disk (state_of (train quiet_externals (secondary_args\<lparr>epochs := 1\<rparr>) used_state)) =
      Some (rows_written
        (events_of (train quiet_externals (secondary_args\<lparr>epochs := 1\<rparr>) used_state)))"
    using C10_log_truncated_at_start [OF su wd] by blast
  with none su wd old show ?thesis
    by (simp only:)
qed

subsection \<open>A plot that fails\<close>

lemma emit_run:
  "events_of (emit ev s) = [ev]" "state_of (emit ev s) = s" "result_of (emit ev s) = Inr ()"
  by (simp_all add: emit_def triple_simps)

lemma plot_mAP_ignores_mosaic:
  "result_of (plot_mAP a (s\<lparr>mosaic := b\<rparr>)) = result_of (plot_mAP a s)"
  "events_of (plot_mAP a (s\<lparr>mosaic := b\<rparr>)) = events_of (plot_mAP a s)"
  by (simp_all add: plot_mAP_def triple_simps split: option.splits)

lemma plot_mAP_traces:
  "rows_written (events_of (plot_mAP a s)) = []" "saves (events_of (plot_mAP a s)) = []"
  "iter_flags (events_of (plot_mAP a s)) = []" "toggles (events_of (plot_mAP a s)) = []"
  by (simp_all add: plot_mAP_def triple_simps trace_simps split: option.splits)

lemma plot_mAP_empty_log:
  "log_disk s = Some [] \<Longrightarrow> result_of (plot_mAP a s) = Inl ValueError"
  by (simp add: plot_mAP_def triple_simps)

lemma test_plot_raises:
  assumes "result_of (plot_mAP a s) = Inl err"
  shows "result_of (test x a (Some m) s) = Inl err"
    and "events_of (test x a (Some m) s) =
      [BuildDataset False, Inference m] @ events_of (plot_mAP a s)"
  using assms
  by (simp_all add: test_def events_and_then result_and_then state_and_then emit_run ret_run)

lemma epoch_end_plot_raises:
  assumes "result_of (plot_mAP a s) = Inl err"
  shows "result_of (epoch_end x a e s) = Inl err"
    and "events_of (epoch_end x a e s) =
      [BuildDataset False, Inference e] @ events_of (plot_mAP a s)"
  using test_plot_raises [OF assms, of x e]
  by (simp_all add: epoch_end_def events_and_then result_and_then)

lemma epoch_body_plot_raises:
  assumes "result_of (plot_mAP a s) = Inl err" and "local_rank a = 0"
  shows "result_of (epoch_body x a acc e s) = Inl err"
    and "events_of (epoch_body x a acc e s) =
      epoch_head x a acc e (mosaic s) @ [BuildDataset False, Inference e] @
      events_of (plot_mAP a s)"
proof -
  let ?s1 = "s\<lparr>mosaic := mosaic s \<and> epochs a - int e \<noteq> 10\<rparr>"
  have p: "result_of (plot_mAP a ?s1) = Inl err"
    using assms(1) by (simp add: plot_mAP_ignores_mosaic)
  show "result_of (epoch_body x a acc e s) = Inl err"
    using epoch_end_plot_raises(1) [OF p] assms(2)
    by (simp add: epoch_body_result py_if_def)
  show "events_of (epoch_body x a acc e s) =
      epoch_head x a acc e (mosaic s) @ [BuildDataset False, Inference e] @
      events_of (plot_mAP a s)"
    using epoch_end_plot_raises(2) [OF p] assms(2)
    by (simp add: epoch_body_events py_if_def plot_mAP_ignores_mosaic)
qed

lemma for_each_raises:
  "result_of (body e s) = Inl err \<Longrightarrow> for_each (e # es) body s = body e s"
  by (cases "body e s") (simp add: for_each.simps and_then_def triple_simps)

text \<open>
  Claim C7, as the code has it. When \<^verbatim>\<open>plot_mAP\<close> raises, \<^verbatim>\<open>test\<close> raises the same
  exception before it computes any metric, and on rank 0 the epoch raises it too, with
  no row logged and no checkpoint saved, and the epoch loop ends there.
\<close>

theorem C7_plot_failure_aborts:
  assumes "result_of (plot_mAP a s) = Inl err"
  shows "result_of (test x a (Some m) s) = Inl err \<and>
         events_of (test x a (Some m) s) =
           [BuildDataset False, Inference m] @ events_of (plot_mAP a s) \<and>
         (local_rank a = 0 \<longrightarrow>
            result_of (epoch_body x a acc e s) = Inl err \<and>
            rows_written (events_of (epoch_body x a acc e s)) = [] \<and>
            saves (events_of (epoch_body x a acc e s)) = [] \<and>
            for_each (e # es) (epoch_body x a acc) s = epoch_body x a acc e s)"
proof -
  have "result_of (epoch_body x a acc e s) = Inl err \<and>
        rows_written (events_of (epoch_body x a acc e s)) = [] \<and>
        saves (events_of (epoch_body x a acc e s)) = [] \<and>
        for_each (e # es) (epoch_body x a acc) s = epoch_body x a acc e s"
    if r: "local_rank a = 0"
    using epoch_body_plot_raises [OF assms r, of x acc e]
    by (simp add: for_each_raises trace_simps epoch_head_traces plot_mAP_traces)
  then show ?thesis
    using test_plot_raises [OF assms, of x m] by blast
qed

text \<open>
  Claim C7 at a concrete input: the plot cannot be written, \<^verbatim>\<open>plot_mAP\<close> raises OSError,
  and so do the evaluation and the epoch.
\<close>

theorem C7_witness:
  "result_of (plot_mAP primary_args (used_state\<lparr>plot_writable := False\<rparr>)) = Inl OSError \<and>
   local_rank primary_args = 0 \<and>
   result_of (test quiet_externals primary_args (Some 0) (used_state\<lparr>plot_writable := False\<rparr>)) =
     Inl OSError \<and>
   result_of (epoch_body quiet_externals primary_args 2 0 (used_state\<lparr>plot_writable := False\<rparr>)) =
     Inl OSError"
proof -
  have p: "result_of (plot_mAP primary_args (used_state\<lparr>plot_writable := False\<rparr>)) = Inl OSError"
    by (simp add: plot_mAP_def used_state_def triple_simps)
  have r: "local_rank primary_args = 0"
    by (simp add: primary_args_def default_args_def)
  show ?thesis
    using C7_plot_failure_aborts [OF p, of quiet_externals 0 2 0] p r by blast
qed

text \<open>
  On rank 0 a run of at least one epoch never gets past its first evaluation: the log
  was truncated when the run opened it and the first row is written only after \<^verbatim>\<open>test\<close>
  returns, so \<^verbatim>\<open>plot_mAP\<close> finds no rows and \<^verbatim>\<open>max\<close> raises ValueError.
\<close>

lemma train_primary_raises:
  assumes "result_of (train_setup x a s) = Inr acc" and "weights_dir s"
    and "local_rank a = 0" and "0 < epochs a"
  shows "result_of (train x a s) = Inl ValueError \<and>
         saves (events_of (train x a s)) = [] \<and>
         rows_written (events_of (train x a s)) = [] \<and>
         iter_flags (events_of (train x a s)) = [(0, mosaic_init x \<and> epochs a \<noteq> 10)]"
proof -
  have p: "result_of (plot_mAP a (loop_start x a s)) = Inl ValueError"
    by (rule plot_mAP_empty_log) (simp add: loop_start_def)
  have er: "epoch_range a = 0 # [1..<nat (epochs a)]"
    using assms(4) by (simp add: epoch_range_def upt_conv_Cons)
  have loop: "epoch_loop x a acc s = epoch_body x a acc 0 (loop_start x a s)"
    using epoch_body_plot_raises(1) [OF p assms(3)]
    by (simp add: epoch_loop_def er for_each_raises)
  have m: "mosaic (loop_start x a s) = mosaic_init x"
    using train_setup_quiet(8) [OF assms(1)] by (simp add: loop_start_def)
  show ?thesis
    using epoch_body_plot_raises [OF p assms(3), of x acc 0]
    by (simp add: train_run [OF assms(1,2)] loop trace_simps train_setup_quiet [OF assms(1)]
        epoch_head_traces plot_mAP_traces epoch_body_iter_flags m)
qed

text \<open>
  Claim C7 as stated fails: in a run of two epochs on rank 0 the first evaluation finds
  the truncated metric log without rows, \<^verbatim>\<open>max\<close> of the empty list raises ValueError in
  \<^verbatim>\<open>plot_mAP\<close>, and \<^verbatim>\<open>train\<close> ends with that exception: nothing is saved or logged and
  the second epoch never starts. When matplotlib cannot write the plot, \<^verbatim>\<open>test\<close>
  raises OSError and returns no metrics.
\<close>

theorem C7_training_stops_at_first_evaluation:
  "result_of (train quiet_externals primary_args (fresh_state\<lparr>weights_dir := True\<rparr>)) =
     Inl ValueError \<and>
   saves (events_of (train quiet_externals primary_args (fresh_state\<lparr>weights_dir := True\<rparr>))) = [] \<and>
   rows_written (events_of (train quiet_externals primary_args (fresh_state\<lparr>weights_dir := True\<rparr>))) = [] \<and>
   iter_flags (events_of (train quiet_externals primary_args (fresh_state\<lparr>weights_dir := True\<rparr>))) =
     [(0, True)] \<and>
   result_of (test quiet_externals primary_args (Some 0) (used_state\<lparr>plot_writable := False\<rparr>)) =
     Inl OSError"
proof -
  have su: "result_of (train_setup quiet_externals primary_args (fresh_state\<lparr>weights_dir := True\<rparr>)) = Inr 2"
    by (simp add: train_setup_def build_model_def accumulate_def scale_weight_decay_def
        build_optimizer_def py_round_def and_then_def emit_def lift_def modify_def py_if_def
        ret_def triple_simps primary_args_def default_args_def Let_def)
  have p: "result_of (plot_mAP primary_args (used_state\<lparr>plot_writable := False\<rparr>)) = Inl OSError"
    by (simp add: plot_mAP_def used_state_def triple_simps)
  show ?thesis
    using train_primary_raises [OF su] test_plot_raises(1) [OF p, of quiet_externals 0]
    by (simp add: primary_args_def default_args_def quiet_externals_def)
qed

subsection \<open>The process identity and the process group\<close>

lemma py_int_getenv:
  "py_int x (getenv env name d) =
     (case env_int x env name d of None \<Rightarrow> throw ValueError | Some n \<Rightarrow> ret n)"
  by (simp add: py_int_def getenv_def env_int_def split: option.splits)

lemma process_identity_run:
  assumes "env_int x env ''LOCAL_RANK'' 0 = Some lr" "env_int x env ''WORLD_SIZE'' 1 = Some ws"
  shows "process_identity x env parsed s =
     ([], s, Inr (parsed\<lparr>local_rank := lr, world_size := ws, distributed := 1 < ws\<rparr>))"
  using assms by (simp add: process_identity_def py_int_getenv and_then_ret) (simp add: ret_def)

lemma process_identity_raises:
  assumes "env_int x env ''LOCAL_RANK'' 0 = None \<or> env_int x env ''WORLD_SIZE'' 1 = None"
  shows "process_identity x env parsed s = ([], s, Inl ValueError)"
  using assms
  by (auto simp: process_identity_def py_int_getenv and_then_def ret_def throw_def
      split: option.splits)

lemma process_identity_overwrites:
  "process_identity x env (parsed\<lparr>local_rank := r\<rparr>) = process_identity x env parsed"
  "process_identity x env (parsed\<lparr>world_size := w\<rparr>) = process_identity x env parsed"
  "process_identity x env (parsed\<lparr>distributed := d\<rparr>) = process_identity x env parsed"
  by (simp_all add: process_identity_def)

text \<open>The process group in a trace.\<close>

lemma group_events_Nil: "group_events [] = []"
  by (simp add: group_events_def)

lemma group_events_Cons:
  "group_events (ev # t) =
     (if ev = InitProcessGroup \<or> ev = DestroyProcessGroup then [ev] else []) @ group_events t"
  by (simp add: group_events_def)

lemma group_events_append: "group_events (t @ t') = group_events t @ group_events t'"
  by (simp add: group_events_def)

lemmas group_simps = group_events_Nil group_events_Cons group_events_append

lemma group_member:
  "InitProcessGroup \<in> set t \<longleftrightarrow> InitProcessGroup \<in> set (group_events t)"
  "DestroyProcessGroup \<in> set t \<longleftrightarrow> DestroyProcessGroup \<in> set (group_events t)"
  by (auto simp: group_events_def)

lemma no_group_same: "group_events t = [] \<Longrightarrow> no_group s t s'"
  by (simp add: no_group_def)

lemma keeps_no_group_fun:
  "(\<And>s. group_events (events_of (m s)) = []) \<Longrightarrow> keeps no_group m"
  by (simp add: keeps_def no_group_def)

lemma keeps_build_model_group: "keeps no_group (build_model a)"
  by (rule keeps_no_group_fun) (simp add: build_model_def emit_run throw_def triple_simps group_simps)

lemma keeps_train_setup_group: "keeps no_group (train_setup x a)"
  unfolding train_setup_def scale_weight_decay_def
  by (intro keeps_and_then keeps_py_if keeps_emit keeps_modify keeps_lift keeps_ret
      keeps_build_model_group composes_no_group keeps_no_group_fun no_group_same)
    (simp_all add: build_optimizer_def triple_simps group_simps)

lemma keeps_test_group: "keeps no_group (test x a m)"
  unfolding test_def
  by (intro keeps_and_then keeps_emit keeps_ret composes_no_group keeps_no_group_fun
      no_group_same)
    (simp_all add: plot_mAP_def load_best_def ret_def triple_simps group_simps
      split: option.splits)

lemma keeps_log_and_save_group: "keeps no_group (log_and_save x a e m)"
  by (rule keeps_no_group_fun) (simp add: log_and_save_events group_simps)

lemma keeps_epoch_body_group: "keeps no_group (epoch_body x a acc e)"
proof (rule keeps_no_group_fun)
  fix s
  have "keeps no_group (py_if (local_rank a = 0) (epoch_end x a e))"
    unfolding epoch_end_def
    by (intro keeps_py_if keeps_and_then composes_no_group keeps_test_group
        keeps_log_and_save_group)
  then show "group_events (events_of (epoch_body x a acc e s)) = []"
    by (simp add: epoch_body_events group_simps group_events_epoch_head keeps_def no_group_def)
qed

lemma keeps_with_log_group:
  assumes "keeps no_group body"
  shows "keeps no_group (with_log a body)"
proof (rule keeps_no_group_fun)
  fix s
  have b: "group_events (events_of (body s')) = []" for s'
    using assms by (simp add: keeps_def no_group_def)
  show "group_events (events_of (with_log a body s)) = []"
    using b [of "s\<lparr>log_disk := Some []\<rparr>"]
    by (cases "body (s\<lparr>log_disk := Some []\<rparr>)")
      (simp add: with_log_def open_log_def and_then_def triple_simps group_simps)
qed

lemma keeps_train_group: "keeps no_group (train x a)"
  unfolding train_def strip_optimizer_def
  by (intro keeps_and_then keeps_py_if keeps_emit keeps_with_log_group keeps_for_each
      keeps_epoch_body_group keeps_train_setup_group composes_no_group keeps_no_group_fun
      no_group_same)
    (simp_all add: triple_simps group_simps)

lemma train_no_group: "group_events (events_of (train x a s)) = []"
  using keeps_train_group by (simp add: keeps_def no_group_def)

lemma test_no_group: "group_events (events_of (test x a m s)) = []"
  using keeps_test_group by (simp add: keeps_def no_group_def)

lemma make_weights_dir_run:
  "group_events (events_of (make_weights_dir s)) = []" "result_of (make_weights_dir s) = Inr ()"
  by (simp_all add: make_weights_dir_def triple_simps group_simps)

lemma zip_run:
  "group_events (events_of (zip_weights_directory a s)) = []"
  "result_of (zip_weights_directory a s) = Inr ()"
  by (simp_all add: zip_weights_directory_def triple_simps group_simps)

lemma py_if_run:
  "events_of (py_if c m s) = (if c then events_of (m s) else [])"
  "state_of (py_if c m s) = (if c then state_of (m s) else s)"
  "result_of (py_if c m s) = (if c then result_of (m s) else Inr ())"
  by (simp_all add: py_if_def ret_run)

lemma main_body_group:
  "group_events (events_of (main_body x a s)) =
     (if distributed a
      then InitProcessGroup #
        (if result_of (main_body x a s) = Inr () then [DestroyProcessGroup] else [])
      else [])"
  by (simp add: main_body_def events_and_then result_and_then state_and_then py_if_run
      emit_run ret_run group_simps train_no_group test_no_group make_weights_dir_run zip_run
      split: sum.splits)

lemma main_group:
  "group_events (events_of (main x env parsed s)) =
     (if InitProcessGroup \<in> set (events_of (main x env parsed s))
      then InitProcessGroup #
        (if result_of (main x env parsed s) = Inr () then [DestroyProcessGroup] else [])
      else [])"
proof (cases "process_identity x env parsed s")
  case (fields t s' r)
  show ?thesis
  proof (cases r)
    case (Inl err)
    have "t = []"
      using fields
      by (cases "env_int x env ''LOCAL_RANK'' 0"; cases "env_int x env ''WORLD_SIZE'' 1")
        (simp_all add: process_identity_raises process_identity_run)
    with fields Inl show ?thesis
      by (simp add: main_def and_then_def triple_simps group_simps)
  next
    case (Inr a)
    have "t = []" "s' = s"
      using fields
      by (cases "env_int x env ''LOCAL_RANK'' 0"; cases "env_int x env ''WORLD_SIZE'' 1";
          simp add: process_identity_raises process_identity_run)+
    then have m: "main x env parsed s = main_body x a s"
      using fields Inr by (cases "main_body x a s") (simp add: main_def and_then_def)
    show ?thesis
      using main_body_group [of x a s]
      by (simp add: m group_member(1) [of "events_of (main_body x a s)"])
  qed
qed

text \<open>
  Claim C5, as the code has it. \<^verbatim>\<open>main\<close> destroys the process group if and only if it
  joined one and nothing before the teardown raised: the call sits after \<^verbatim>\<open>train\<close> and
  \<^verbatim>\<open>test\<close> in straight-line code, so an exception of either leaves the group standing.
\<close>

theorem C5_teardown_only_without_error:
  "DestroyProcessGroup \<in> set (events_of (main x env parsed s)) \<longleftrightarrow>
     InitProcessGroup \<in> set (events_of (main x env parsed s)) \<and>
     result_of (main x env parsed s) = Inr ()"
  by (subst group_member(2)) (simp add: main_group)

lemma main_is_main_body:
  assumes "env_int x env ''LOCAL_RANK'' 0 = Some lr" "env_int x env ''WORLD_SIZE'' 1 = Some ws"
  shows "main x env parsed s =
     main_body x (parsed\<lparr>local_rank := lr, world_size := ws, distributed := 1 < ws\<rparr>) s"
  by (cases "main_body x (parsed\<lparr>local_rank := lr, world_size := ws, distributed := 1 < ws\<rparr>) s")
    (simp add: main_def and_then_def process_identity_run [OF assms])

lemma main_ignores_parsed_identity:
  "main x env (parsed\<lparr>local_rank := r\<rparr>) = main x env parsed"
  "main x env (parsed\<lparr>world_size := w\<rparr>) = main x env parsed"
  "main x env (parsed\<lparr>distributed := d\<rparr>) = main x env parsed"
  by (simp_all add: main_def process_identity_overwrites)

text \<open>
  Claim C9. When \<^verbatim>\<open>LOCAL_RANK\<close> (default 0) and \<^verbatim>\<open>WORLD_SIZE\<close> (default 1) are integers,
  \<^verbatim>\<open>main\<close> overwrites \<open>local_rank\<close> and \<open>world_size\<close> with them and sets \<open>distributed\<close> to
  \<open>1 < WORLD_SIZE\<close>; the rank given on the command line changes nothing in the run; and
  the process group is joined if and only if \<open>1 < WORLD_SIZE\<close>.
\<close>

theorem C9_identity_from_environment:
  assumes "env_int x env ''LOCAL_RANK'' 0 = Some lr" and "env_int x env ''WORLD_SIZE'' 1 = Some ws"
  shows "process_identity x env parsed s =
           ([], s, Inr (parsed\<lparr>local_rank := lr, world_size := ws, distributed := 1 < ws\<rparr>)) \<and>
         main x env (parsed\<lparr>local_rank := r\<rparr>) s = main x env parsed s \<and>
         (InitProcessGroup \<in> set (events_of (main x env parsed s)) \<longleftrightarrow> 1 < ws)"
proof -
  have "InitProcessGroup \<in> set (events_of (main x env parsed s)) \<longleftrightarrow> 1 < ws"
    by (subst group_member(1)) (simp add: main_is_main_body [OF assms] main_body_group)
  then show ?thesis
    by (simp add: process_identity_run [OF assms] main_ignores_parsed_identity)
qed

lemma secondary_env_ints:
  "env_int quiet_externals secondary_env ''LOCAL_RANK'' 0 = Some 1"
  "env_int quiet_externals secondary_env ''WORLD_SIZE'' 1 = Some 2"
  by (simp_all add: env_int_def secondary_env_def quiet_externals_def)

lemma primary_env_ints:
  "env_int quiet_externals primary_env ''LOCAL_RANK'' 0 = Some 0"
  "env_int quiet_externals primary_env ''WORLD_SIZE'' 1 = Some 2"
  by (simp_all add: env_int_def primary_env_def quiet_externals_def)

text \<open>
  Claim C9 at a concrete input: with \<^verbatim>\<open>LOCAL_RANK=1\<close> and \<^verbatim>\<open>WORLD_SIZE=2\<close> the run with
  \<^verbatim>\<open>--local-rank 7\<close> is the run without it, and the process group is joined.
\<close>

theorem C9_witness:
  "env_int quiet_externals secondary_env ''LOCAL_RANK'' 0 = Some 1 \<and>
   env_int quiet_externals secondary_env ''WORLD_SIZE'' 1 = Some 2 \<and>
   main quiet_externals secondary_env (default_args\<lparr>local_rank := 7\<rparr>) fresh_state =
     main quiet_externals secondary_env default_args fresh_state \<and>
   InitProcessGroup \<in> set (events_of (main quiet_externals secondary_env default_args fresh_state))"
  using C9_identity_from_environment [OF secondary_env_ints, of default_args fresh_state 7]
    secondary_env_ints
  by simp

lemma train_unsupported:
  assumes "version a \<notin> {''n'', ''s'', ''m'', ''l'', ''x''}"
  shows "train x a s = ([], s, Inl ValueError)"
proof -
  have "build_model a = throw ValueError"
    using assms by (simp add: build_model_def)
  then show ?thesis
    by (simp add: train_def and_then_def train_setup_raises_version)
qed

lemma main_secondary_train:
  "main quiet_externals secondary_env (default_args\<lparr>train_flag := True, epochs := n\<rparr>) used_state =
     main_body quiet_externals (secondary_args\<lparr>epochs := n\<rparr>) used_state"
  by (simp add: main_is_main_body [OF secondary_env_ints] secondary_args_def default_args_def)

lemma secondary_setup:
  "result_of (train_setup quiet_externals (secondary_args\<lparr>epochs := n\<rparr>) used_state) = Inr 1"
  by (simp add: train_setup_def build_model_def accumulate_def scale_weight_decay_def
      build_optimizer_def py_round_def and_then_def emit_def lift_def modify_def py_if_def
      ret_def triple_simps secondary_args_def default_args_def Let_def)

lemma used_state_dir: "weights_dir used_state"
  by (simp add: used_state_def)

lemma main_body_secondary_train:
  assumes "local_rank a \<noteq> 0" "distributed a" "train_flag a" "\<not> test_flag a" "\<not> zip_flag a"
  shows "events_of (main_body x a s) =
           [SetDevice (local_rank a), InitProcessGroup, Profile] @ events_of (train x a s) @
           (if result_of (train x a s) = Inr () then [DestroyProcessGroup, EmptyCache] else [])"
    and "state_of (main_body x a s) = state_of (train x a s)"
    and "result_of (main_body x a s) = result_of (train x a s)"
  using assms
  by (simp_all add: main_body_def events_and_then result_and_then state_and_then py_if_run
      emit_run ret_run split: sum.splits)

text \<open>
  Claim C4 at a run of the process with \<^verbatim>\<open>LOCAL_RANK=1\<close> of two, started with
  \<^verbatim>\<open>--train --epochs 1\<close> where the metric log of an earlier run holds one row: the
  secondary process opens the metric log for writing and leaves it without rows.
\<close>

theorem C4_secondary_truncates_log:
  "OpenWrite (csv_file (secondary_args\<lparr>epochs := 1\<rparr>)) \<in>
     set (events_of (main quiet_externals secondary_env
            (default_args\<lparr>train_flag := True, epochs := 1\<rparr>) used_state)) \<and>
   log_disk used_state =
     Some [\<lparr>r_epoch = 1, r_losses = (0, 0, 0), r_metrics = (1 / 2, 0, 0, 0)\<rparr>] \<and>
   log_disk (state_of (main quiet_externals secondary_env
            (default_args\<lparr>train_flag := True, epochs := 1\<rparr>) used_state)) = Some []"
proof -
  let ?a = "secondary_args\<lparr>epochs := 1\<rparr>"
  have flags: "local_rank ?a \<noteq> 0" "distributed ?a" "train_flag ?a" "\<not> test_flag ?a" "\<not> zip_flag ?a"
    by (simp_all add: secondary_args_def default_args_def)
  have "rows_written (events_of (train quiet_externals ?a used_state)) = []"
    using train_secondary_quiet [OF secondary_setup used_state_dir flags(1)] by blast
  then have "log_disk (state_of (train quiet_externals ?a used_state)) = Some []"
    by (simp add: train_log [OF secondary_setup used_state_dir])
  moreover have "OpenWrite (csv_file ?a) \<in> set (events_of (train quiet_externals ?a used_state))"
    by (simp add: train_run(2) [OF secondary_setup used_state_dir])
  moreover have "log_disk used_state =
      Some [\<lparr>r_epoch = 1, r_losses = (0, 0, 0), r_metrics = (1 / 2, 0, 0, 0)\<rparr>]"
    by (simp add: used_state_def)
  ultimately show ?thesis
    by (simp add: main_secondary_train main_body_secondary_train [OF flags])
qed

text \<open>
  With \<^verbatim>\<open>--test\<close>, \<^verbatim>\<open>main\<close> calls \<^verbatim>\<open>test\<close> on every rank: a secondary process then writes
  the plot.
\<close>

lemma secondary_test_writes_plot:
  "SavePlot (plot_file (default_args\<lparr>test_flag := True, local_rank := 1, world_size := 2,
      distributed := True\<rparr>)) \<in>
     set (events_of (main quiet_externals secondary_env (default_args\<lparr>test_flag := True\<rparr>)
       (used_state\<lparr>best_pt := Some (new_ckpt 0)\<rparr>)))"
  by (simp add: main_is_main_body [OF secondary_env_ints] main_body_def events_and_then
      result_and_then state_and_then py_if_run emit_run ret_run test_def load_best_def
      plot_mAP_def triple_simps used_state_def default_args_def fresh_state_def)

text \<open>
  Claim C5 at a run that returns: the secondary process of two trains one epoch, and
  the group it joined is destroyed.
\<close>

theorem C5_witness:
  "InitProcessGroup \<in> set (events_of (main quiet_externals secondary_env
      (default_args\<lparr>train_flag := True, epochs := 1\<rparr>) used_state)) \<and>
   result_of (main quiet_externals secondary_env
      (default_args\<lparr>train_flag := True, epochs := 1\<rparr>) used_state) = Inr () \<and>
   DestroyProcessGroup \<in> set (events_of (main quiet_externals secondary_env
      (default_args\<lparr>train_flag := True, epochs := 1\<rparr>) used_state))"
proof -
  let ?a = "secondary_args\<lparr>epochs := 1\<rparr>"
  have flags: "local_rank ?a \<noteq> 0" "distributed ?a" "train_flag ?a" "\<not> test_flag ?a" "\<not> zip_flag ?a"
    by (simp_all add: secondary_args_def default_args_def)
  have r: "result_of (main quiet_externals secondary_env
      (default_args\<lparr>train_flag := True, epochs := 1\<rparr>) used_state) = Inr ()"
    by (simp add: main_secondary_train main_body_secondary_train(3) [OF flags]
        secondary_run_returns)
  have i: "InitProcessGroup \<in> set (events_of (main quiet_externals secondary_env
      (default_args\<lparr>train_flag := True, epochs := 1\<rparr>) used_state))"
    by (simp add: main_secondary_train main_body_secondary_train(1) [OF flags])
  show ?thesis
    using C5_teardown_only_without_error [of quiet_externals secondary_env
        "default_args\<lparr>train_flag := True, epochs := 1\<rparr>" used_state] r i
    by blast
qed

text \<open>
  Claim C5 as stated fails: rank 0 of two joins the process group, \<^verbatim>\<open>train\<close> raises
  ValueError for the unsupported variant \<^verbatim>\<open>z\<close>, and the group is never destroyed.
\<close>

theorem C5_no_teardown_when_training_raises:
  "InitProcessGroup \<in> set (events_of (main quiet_externals primary_env
      (default_args\<lparr>train_flag := True, version := ''z''\<rparr>) fresh_state)) \<and>
   result_of (main quiet_externals primary_env
      (default_args\<lparr>train_flag := True, version := ''z''\<rparr>) fresh_state) = Inl ValueError \<and>
   DestroyProcessGroup \<notin> set (events_of (main quiet_externals primary_env
      (default_args\<lparr>train_flag := True, version := ''z''\<rparr>) fresh_state))"
  by (simp add: main_is_main_body [OF primary_env_ints] main_body_def events_and_then
      result_and_then state_and_then py_if_run emit_run ret_run train_unsupported
      triple_simps make_weights_dir_def default_args_def fresh_state_def)

subsection \<open>Runs of \<^verbatim>\<open>train\<close>, returning or not\<close>

lemma train_setup_quiet_any:
  "toggles (events_of (train_setup x a s)) = []"
  "iter_flags (events_of (train_setup x a s)) = []"
  "micro_steps (events_of (train_setup x a s)) = []"
  "update_steps (events_of (train_setup x a s)) = []"
  "ema_steps (events_of (train_setup x a s)) = []"
  "applied_steps (events_of (train_setup x a s)) = []"
proof -
  consider (bad) "build_model a = throw ValueError"
    | (div) name err where "build_model a = emit (BuildModel name)" "accumulate a = Inl err"
    | (ok) name acc where "build_model a = emit (BuildModel name)" "accumulate a = Inr acc"
    using build_model_cases [of a] by (cases "accumulate a") auto
  then have "toggles (events_of (train_setup x a s)) = [] \<and>
    iter_flags (events_of (train_setup x a s)) = [] \<and>
    micro_steps (events_of (train_setup x a s)) = [] \<and>
    update_steps (events_of (train_setup x a s)) = [] \<and>
    ema_steps (events_of (train_setup x a s)) = [] \<and>
    applied_steps (events_of (train_setup x a s)) = []"
  proof cases
    case bad
    then show ?thesis
      by (simp add: train_setup_raises_version triple_simps trace_simps)
  next
    case div
    then show ?thesis
      by (simp add: train_setup_raises_division triple_simps trace_simps)
  next
    case ok
    then show ?thesis
      by (simp add: train_setup_run triple_simps trace_simps)
  qed
  then show "toggles (events_of (train_setup x a s)) = []"
    "iter_flags (events_of (train_setup x a s)) = []"
    "micro_steps (events_of (train_setup x a s)) = []"
    "update_steps (events_of (train_setup x a s)) = []"
    "ema_steps (events_of (train_setup x a s)) = []"
    "applied_steps (events_of (train_setup x a s)) = []"
    by simp_all
qed

lemma train_stops_in_setup:
  assumes "result_of (train_setup x a s) = Inl err"
  shows "events_of (train x a s) = events_of (train_setup x a s)"
    and "result_of (train x a s) = Inl err"
  using assms
  by (cases "train_setup x a s"; simp add: train_def and_then_def triple_simps)+

lemma train_stops_at_open:
  assumes "result_of (train_setup x a s) = Inr acc" and "\<not> weights_dir s"
  shows "events_of (train x a s) = events_of (train_setup x a s)"
    and "result_of (train x a s) = Inl FileNotFoundError"
proof -
  obtain t0 s0 where su: "train_setup x a s = (t0, s0, Inr acc)"
    using assms(1) by (cases "train_setup x a s") (auto simp: triple_simps)
  have wd: "\<not> weights_dir s0"
    using train_setup_quiet(9) [OF assms(1)] assms(2) by (simp add: su triple_simps)
  show "events_of (train x a s) = events_of (train_setup x a s)"
    using wd by (simp add: train_def with_log_def open_log_def and_then_def su triple_simps)
  show "result_of (train x a s) = Inl FileNotFoundError"
    using wd by (simp add: train_def with_log_def open_log_def and_then_def su triple_simps)
qed

text \<open>The loop over the epochs, whether it returns or raises.\<close>

lemma loop_prefix:
  "\<exists>m. m \<le> n - k \<and>
     (result_of (for_each [k..<n] (epoch_body x a acc) s) = Inr () \<longrightarrow> m = n - k) \<and>
     iter_flags (events_of (for_each [k..<n] (epoch_body x a acc) s)) =
       map (\<lambda>e. (e, mosaic s \<and> \<not> (int k \<le> epochs a - 10 \<and> epochs a - 10 \<le> int e)))
         [k..<k + m] \<and>
     toggles (events_of (for_each [k..<n] (epoch_body x a acc) s)) =
       filter (\<lambda>e. epochs a - int e = 10) [k..<k + m] \<and>
     micro_steps (events_of (for_each [k..<n] (epoch_body x a acc) s)) =
       micro_steps (concat (map (step_loop x a acc) [k..<k + m])) \<and>
     update_steps (events_of (for_each [k..<n] (epoch_body x a acc) s)) =
       update_steps (concat (map (step_loop x a acc) [k..<k + m])) \<and>
     ema_steps (events_of (for_each [k..<n] (epoch_body x a acc) s)) =
       ema_steps (concat (map (step_loop x a acc) [k..<k + m])) \<and>
     applied_steps (events_of (for_each [k..<n] (epoch_body x a acc) s)) =
       applied_steps (concat (map (step_loop x a acc) [k..<k + m]))"
proof (induction "n - k" arbitrary: k s)
  case 0
  then show ?case
    by (intro exI [of _ 0]) (simp add: for_each_runs trace_simps)
next
  case (Suc d)
  then have kn: "k < n" and d: "d = n - Suc k"
    by simp_all
  have up: "[k..<n] = k # [Suc k..<n]"
    using kn by (simp add: upt_conv_Cons)
  let ?s' = "state_of (epoch_body x a acc k s)"
  show ?case
  proof (cases "result_of (epoch_body x a acc k s)")
    case (Inl err)
    show ?thesis
      using kn Inl
      by (intro exI [of _ 1])
        (simp add: up for_each_runs trace_simps epoch_body_iter_flags epoch_body_toggles
          epoch_body_steps)
  next
    case (Inr u)
    from Suc.hyps(1) [OF d, of ?s'] obtain m where m: "m \<le> n - Suc k"
      "result_of (for_each [Suc k..<n] (epoch_body x a acc) ?s') = Inr () \<longrightarrow> m = n - Suc k"
      "iter_flags (events_of (for_each [Suc k..<n] (epoch_body x a acc) ?s')) =
         map (\<lambda>e. (e, mosaic ?s' \<and> \<not> (int (Suc k) \<le> epochs a - 10 \<and> epochs a - 10 \<le> int e)))
           [Suc k..<Suc k + m]"
      "toggles (events_of (for_each [Suc k..<n] (epoch_body x a acc) ?s')) =
         filter (\<lambda>e. epochs a - int e = 10) [Suc k..<Suc k + m]"
      "micro_steps (events_of (for_each [Suc k..<n] (epoch_body x a acc) ?s')) =
         micro_steps (concat (map (step_loop x a acc) [Suc k..<Suc k + m]))"
      "update_steps (events_of (for_each [Suc k..<n] (epoch_body x a acc) ?s')) =
         update_steps (concat (map (step_loop x a acc) [Suc k..<Suc k + m]))"
      "ema_steps (events_of (for_each [Suc k..<n] (epoch_body x a acc) ?s')) =
         ema_steps (concat (map (step_loop x a acc) [Suc k..<Suc k + m]))"
      "applied_steps (events_of (for_each [Suc k..<n] (epoch_body x a acc) ?s')) =
         applied_steps (concat (map (step_loop x a acc) [Suc k..<Suc k + m]))"
      by blast
    have up': "[k..<k + Suc m] = k # [Suc k..<Suc k + m]"
      by (simp add: upt_conv_Cons)
    have fl: "map (\<lambda>e. (e, mosaic ?s' \<and> \<not> (int (Suc k) \<le> epochs a - 10 \<and> epochs a - 10 \<le> int e)))
          [Suc k..<Suc k + m] =
        map (\<lambda>e. (e, mosaic s \<and> \<not> (int k \<le> epochs a - 10 \<and> epochs a - 10 \<le> int e)))
          [Suc k..<Suc k + m]"
      by (rule map_cong) (auto simp: epoch_body_mosaic)
    have "Suc m \<le> n - k"
      using m(1) kn by simp
    moreover have "result_of (for_each [k..<n] (epoch_body x a acc) s) = Inr () \<longrightarrow> Suc m = n - k"
      using m(2) kn Inr by (auto simp: up for_each_runs)
    moreover have "iter_flags (events_of (for_each [k..<n] (epoch_body x a acc) s)) =
        map (\<lambda>e. (e, mosaic s \<and> \<not> (int k \<le> epochs a - 10 \<and> epochs a - 10 \<le> int e)))
          [k..<k + Suc m]"
    proof -
      have "iter_flags (events_of (for_each [k..<n] (epoch_body x a acc) s)) =
          iter_flags (events_of (epoch_body x a acc k s)) @
          iter_flags (events_of (for_each [Suc k..<n] (epoch_body x a acc) ?s'))"
        using Inr by (simp add: up for_each_runs trace_simps)
      also have "\<dots> = [(k, mosaic s \<and> epochs a - int k \<noteq> 10)] @
          map (\<lambda>e. (e, mosaic s \<and> \<not> (int k \<le> epochs a - 10 \<and> epochs a - 10 \<le> int e)))
            [Suc k..<Suc k + m]"
        by (simp only: epoch_body_iter_flags m(3) fl)
      also have "\<dots> =
          map (\<lambda>e. (e, mosaic s \<and> \<not> (int k \<le> epochs a - 10 \<and> epochs a - 10 \<le> int e)))
            (k # [Suc k..<Suc k + m])"
        by auto
      finally show ?thesis
        by (simp only: up')
    qed
    moreover have "toggles (events_of (for_each [k..<n] (epoch_body x a acc) s)) =
        filter (\<lambda>e. epochs a - int e = 10) [k..<k + Suc m]"
      using Inr m(4)
      by (simp only: up up' for_each_runs trace_simps epoch_body_toggles) simp
    moreover have "micro_steps (events_of (for_each [k..<n] (epoch_body x a acc) s)) =
        micro_steps (concat (map (step_loop x a acc) [k..<k + Suc m]))"
      using Inr m(5)
      by (simp only: up up' for_each_runs trace_simps epoch_body_steps) (simp add: trace_simps)
    moreover have "update_steps (events_of (for_each [k..<n] (epoch_body x a acc) s)) =
        update_steps (concat (map (step_loop x a acc) [k..<k + Suc m]))"
      using Inr m(6)
      by (simp only: up up' for_each_runs trace_simps epoch_body_steps) (simp add: trace_simps)
    moreover have "ema_steps (events_of (for_each [k..<n] (epoch_body x a acc) s)) =
        ema_steps (concat (map (step_loop x a acc) [k..<k + Suc m]))"
      using Inr m(7)
      by (simp only: up up' for_each_runs trace_simps epoch_body_steps) (simp add: trace_simps)
    moreover have "applied_steps (events_of (for_each [k..<n] (epoch_body x a acc) s)) =
        applied_steps (concat (map (step_loop x a acc) [k..<k + Suc m]))"
      using Inr m(8)
      by (simp only: up up' for_each_runs trace_simps epoch_body_steps) (simp add: trace_simps)
    ultimately show ?thesis
      by (intro exI [of _ "Suc m"]) blast
  qed
qed

lemma epoch_steps_take:
  "concat (map (step_loop x a acc) [0..<0 + m]) = epoch_steps x a acc m"
  by (simp add: epoch_steps_def)

text \<open>
  Every run of \<^verbatim>\<open>train\<close> takes the micro-steps of the first \<open>m\<close> epochs, for some \<open>m\<close>
  that is the number of epochs when the run returns.
\<close>

lemma train_prefix:
  "\<exists>m. m \<le> nat (epochs a) \<and>
     (result_of (train x a s) = Inr () \<longrightarrow> m = nat (epochs a)) \<and>
     iter_flags (events_of (train x a s)) =
       map (\<lambda>e. (e, mosaic_init x \<and> (epochs a < 10 \<or> int e < epochs a - 10))) [0..<m] \<and>
     toggles (events_of (train x a s)) = filter (\<lambda>e. epochs a - int e = 10) [0..<m] \<and>
     (\<forall>acc. accumulate a = Inr acc \<longrightarrow>
        micro_steps (events_of (train x a s)) = micro_steps (epoch_steps x a acc m) \<and>
        update_steps (events_of (train x a s)) = update_steps (epoch_steps x a acc m) \<and>
        ema_steps (events_of (train x a s)) = ema_steps (epoch_steps x a acc m) \<and>
        applied_steps (events_of (train x a s)) = applied_steps (epoch_steps x a acc m))"
proof (cases "result_of (train_setup x a s)")
  case (Inl err)
  show ?thesis
    by (intro exI [of _ 0])
      (simp add: train_stops_in_setup [OF Inl] train_setup_quiet_any trace_simps epoch_steps_def)
next
  case (Inr acc)
  then have acc: "accumulate a = Inr acc"
    using train_setup_returns by blast
  show ?thesis
  proof (cases "weights_dir s")
    case False
    show ?thesis
      by (intro exI [of _ 0])
        (simp add: train_stops_at_open [OF Inr False] train_setup_quiet_any trace_simps
          epoch_steps_def)
  next
    case True
    have m0: "mosaic (loop_start x a s) = mosaic_init x"
      using train_setup_quiet(8) [OF Inr] by (simp add: loop_start_def)
    from loop_prefix [of "nat (epochs a)" 0 x a acc "loop_start x a s"]
    obtain m where m: "m \<le> nat (epochs a)"
      "result_of (epoch_loop x a acc s) = Inr () \<longrightarrow> m = nat (epochs a)"
      "iter_flags (events_of (epoch_loop x a acc s)) =
         map (\<lambda>e. (e, mosaic_init x \<and> \<not> (int 0 \<le> epochs a - 10 \<and> epochs a - 10 \<le> int e)))
           [0..<0 + m]"
      "toggles (events_of (epoch_loop x a acc s)) =
         filter (\<lambda>e. epochs a - int e = 10) [0..<0 + m]"
      "micro_steps (events_of (epoch_loop x a acc s)) =
         micro_steps (concat (map (step_loop x a acc) [0..<0 + m]))"
      "update_steps (events_of (epoch_loop x a acc s)) =
         update_steps (concat (map (step_loop x a acc) [0..<0 + m]))"
      "ema_steps (events_of (epoch_loop x a acc s)) =
         ema_steps (concat (map (step_loop x a acc) [0..<0 + m]))"
      "applied_steps (events_of (epoch_loop x a acc s)) =
         applied_steps (concat (map (step_loop x a acc) [0..<0 + m]))"
      unfolding epoch_loop_def epoch_range_def m0 by auto
    have fl: "map (\<lambda>e. (e, mosaic_init x \<and> \<not> (int 0 \<le> epochs a - 10 \<and> epochs a - 10 \<le> int e)))
          [0..<0 + m] =
        map (\<lambda>e. (e, mosaic_init x \<and> (epochs a < 10 \<or> int e < epochs a - 10))) [0..<m]"
      by (rule map_cong) auto
    have "iter_flags (events_of (train x a s)) =
        map (\<lambda>e. (e, mosaic_init x \<and> (epochs a < 10 \<or> int e < epochs a - 10))) [0..<m]"
      using m(3) fl
      by (simp add: train_run(2) [OF Inr True] trace_simps train_setup_quiet_any)
    moreover have "toggles (events_of (train x a s)) =
        filter (\<lambda>e. epochs a - int e = 10) [0..<m]"
      using m(4) by (simp add: train_run(2) [OF Inr True] trace_simps train_setup_quiet_any)
    moreover have "micro_steps (events_of (train x a s)) = micro_steps (epoch_steps x a acc m)"
      using m(5)
      by (simp add: train_run(2) [OF Inr True] trace_simps train_setup_quiet_any epoch_steps_def)
    moreover have "update_steps (events_of (train x a s)) = update_steps (epoch_steps x a acc m)"
      using m(6)
      by (simp add: train_run(2) [OF Inr True] trace_simps train_setup_quiet_any epoch_steps_def)
    moreover have "ema_steps (events_of (train x a s)) = ema_steps (epoch_steps x a acc m)"
      using m(7)
      by (simp add: train_run(2) [OF Inr True] trace_simps train_setup_quiet_any epoch_steps_def)
    moreover have "applied_steps (events_of (train x a s)) = applied_steps (epoch_steps x a acc m)"
      using m(8)
      by (simp add: train_run(2) [OF Inr True] trace_simps train_setup_quiet_any epoch_steps_def)
    moreover have "result_of (train x a s) = Inr () \<longrightarrow> m = nat (epochs a)"
      using m(2) by (simp add: train_run(1) [OF Inr True])
    ultimately show ?thesis
      using m(1) acc by (intro exI [of _ m]) simp
  qed
qed

lemma toggle_epochs_upto:
  "filter (\<lambda>e. E - int e = 10) [0..<m] =
     (if 10 \<le> E \<and> nat (E - 10) < m then [nat (E - 10)] else [])"
proof (cases "10 \<le> E")
  case True
  then have "(\<lambda>e. E - int e = 10) = (\<lambda>e. e = nat (E - 10))"
    by (auto simp: fun_eq_iff)
  with True show ?thesis
    by (simp add: filter_eq_upt)
next
  case False
  then have "filter (\<lambda>e. E - int e = 10) [0..<m] = []"
    by (auto simp: filter_empty_conv)
  with False show ?thesis by simp
qed

lemma train_mosaic_any:
  "\<exists>m. m \<le> nat (epochs a) \<and>
     (result_of (train x a s) = Inr () \<longrightarrow> m = nat (epochs a)) \<and>
     iter_flags (events_of (train x a s)) =
       map (\<lambda>e. (e, mosaic_init x \<and> (epochs a < 10 \<or> int e < epochs a - 10))) [0..<m] \<and>
     toggles (events_of (train x a s)) =
       (if 10 \<le> epochs a \<and> nat (epochs a - 10) < m then [nat (epochs a - 10)] else [])"
proof -
  from train_prefix [of a x s] obtain m where "m \<le> nat (epochs a)"
    "result_of (train x a s) = Inr () \<longrightarrow> m = nat (epochs a)"
    "iter_flags (events_of (train x a s)) =
       map (\<lambda>e. (e, mosaic_init x \<and> (epochs a < 10 \<or> int e < epochs a - 10))) [0..<m]"
    "toggles (events_of (train x a s)) = filter (\<lambda>e. epochs a - int e = 10) [0..<m]"
    by blast
  then show ?thesis
    by (intro exI [of _ m]) (simp only: toggle_epochs_upto simp_thms)
qed

lemma train_steps_any:
  assumes "accumulate a = Inr acc"
  shows "\<exists>m. m \<le> nat (epochs a) \<and>
     (result_of (train x a s) = Inr () \<longrightarrow> m = nat (epochs a)) \<and>
     micro_steps (events_of (train x a s)) = [0..<loader_len x * m] \<and>
     update_steps (events_of (train x a s)) =
       filter (\<lambda>k. int k mod acc = 0) [0..<loader_len x * m]"
proof -
  from train_prefix [of a x s] assms obtain m where "m \<le> nat (epochs a)"
    "result_of (train x a s) = Inr () \<longrightarrow> m = nat (epochs a)"
    "micro_steps (events_of (train x a s)) = micro_steps (epoch_steps x a acc m)"
    "update_steps (events_of (train x a s)) = update_steps (epoch_steps x a acc m)"
    by blast
  then show ?thesis
    by (intro exI [of _ m]) (simp only: epoch_steps_micro_steps epoch_steps_update_steps simp_thms)
qed

lemma train_ema_any:
  "ema_steps (events_of (train x a s)) =
     (if local_rank a = 0 then update_steps (events_of (train x a s)) else []) \<and>
   applied_steps (events_of (train x a s)) =
     filter (\<lambda>k. \<not> grad_overflow x k) (update_steps (events_of (train x a s)))"
proof (cases "result_of (train_setup x a s)")
  case (Inl err)
  show ?thesis
    by (simp add: train_stops_in_setup [OF Inl] train_setup_quiet_any)
next
  case (Inr acc)
  then have acc: "accumulate a = Inr acc"
    using train_setup_returns by blast
  from train_prefix [of a x s] acc obtain m where
    "update_steps (events_of (train x a s)) = update_steps (epoch_steps x a acc m)"
    "ema_steps (events_of (train x a s)) = ema_steps (epoch_steps x a acc m)"
    "applied_steps (events_of (train x a s)) = applied_steps (epoch_steps x a acc m)"
    by blast
  then show ?thesis
    by (simp only: epoch_steps_ema_steps epoch_steps_applied_steps simp_thms)
qed

subsection \<open>The claims about whole runs of \<^verbatim>\<open>train\<close>\<close>

text \<open>
  Claim C2, with the count the code gives. For every accumulation count of at least 1,
  a micro-step attempts an optimizer update if and only if its global step
  \<open>i + loader_len * epoch\<close> is a multiple of the count; the micro-steps of \<open>E\<close> epochs are
  the steps \<open>0\<close> to \<open>N - 1\<close> for \<open>N = loader_len * E\<close>; the attempted updates are the
  multiples of the count among them, and there are \<open>(N + acc - 1) div acc\<close> of them, the
  quotient \<open>N / acc\<close> rounded up, which is \<open>N div acc\<close> when the count divides \<open>N\<close> and
  \<open>N div acc + 1\<close> otherwise; with a count of 1 every step updates. In a run of
  \<^verbatim>\<open>train\<close> with that count, \<open>m\<close> epochs take their micro-steps (all of them when the run
  returns), the steps are \<open>0\<close> to \<open>loader_len * m - 1\<close>, and the attempted updates are the
  multiples of the count among them.
\<close>

theorem C2_updates_at_multiples:
  assumes "1 \<le> acc"
  shows "update_steps (micro_step x a acc e i) =
           (if int (i + loader_len x * e) mod acc = 0 then [i + loader_len x * e] else []) \<and>
         micro_steps (epoch_steps x a acc E) = [0..<loader_len x * E] \<and>
         update_steps (epoch_steps x a acc E) =
           filter (\<lambda>k. int k mod acc = 0) [0..<loader_len x * E] \<and>
         int (length (update_steps (epoch_steps x a acc E))) =
           (int (loader_len x * E) + acc - 1) div acc \<and>
         (int (loader_len x * E) + acc - 1) div acc =
           int (loader_len x * E) div acc + (if int (loader_len x * E) mod acc = 0 then 0 else 1) \<and>
         (acc = 1 \<longrightarrow> update_steps (epoch_steps x a acc E) = [0..<loader_len x * E]) \<and>
         (accumulate a = Inr acc \<longrightarrow>
            (\<exists>m. m \<le> nat (epochs a) \<and>
               (result_of (train x a s) = Inr () \<longrightarrow> m = nat (epochs a)) \<and>
               micro_steps (events_of (train x a s)) = [0..<loader_len x * m] \<and>
               update_steps (events_of (train x a s)) =
                 filter (\<lambda>k. int k mod acc = 0) [0..<loader_len x * m]))"
proof -
  have "filter (\<lambda>k. int k mod acc = 0) [0..<loader_len x * E] = [0..<loader_len x * E]"
    if "acc = 1"
    using that by simp
  moreover have "\<exists>m. m \<le> nat (epochs a) \<and>
      (result_of (train x a s) = Inr () \<longrightarrow> m = nat (epochs a)) \<and>
      micro_steps (events_of (train x a s)) = [0..<loader_len x * m] \<and>
      update_steps (events_of (train x a s)) =
        filter (\<lambda>k. int k mod acc = 0) [0..<loader_len x * m]"
    if "accumulate a = Inr acc"
    using that by (rule train_steps_any)
  moreover have "(int (loader_len x * E) + acc - 1) div acc =
      int (loader_len x * E) div acc + (if int (loader_len x * E) mod acc = 0 then 0 else 1)"
    using assms by (rule ceil_div_split) simp
  ultimately show ?thesis
    using count_multiples [OF assms, of "loader_len x * E"]
    by (simp only: micro_step_update_steps epoch_steps_micro_steps epoch_steps_update_steps)
      blast
qed

text \<open>
  Claim C2 at concrete inputs: count 2 over 4 steps updates at steps 0 and 2; count 2
  over 3 steps gives 2 updates; count 1 over 4 steps updates at every step.
\<close>

theorem C2_witness:
  "(1::int) \<le> 2 \<and>
   update_steps (epoch_steps quiet_externals default_args 2 2) = [0, 2] \<and>
   length (update_steps (epoch_steps (quiet_externals\<lparr>loader_len := 3\<rparr>) default_args 2 1)) = 2 \<and>
   update_steps (epoch_steps quiet_externals default_args 1 2) = [0, 1, 2, 3]"
  using C2_updates_at_multiples [of 2 quiet_externals default_args 0 0 2]
    C2_updates_at_multiples [of 2 "quiet_externals\<lparr>loader_len := 3\<rparr>" default_args 0 0 1]
    C2_updates_at_multiples [of 1 quiet_externals default_args 0 0 2]
  by (simp add: quiet_externals_def upt_conv_Cons)

text \<open>
  Claim C2 as stated gives a wrong count under either reading of "plus 1 when step 0
  counts": over 3 steps with count 2 the updates are not \<open>3 div 2\<close>, and over 4 steps with
  count 2 they are not \<open>4 div 2 + 1\<close>.
\<close>

theorem C2_count_is_not_floor:
  "length (update_steps (epoch_steps (quiet_externals\<lparr>loader_len := 3\<rparr>) default_args 2 1))
     \<noteq> 3 div 2 \<and>
   length (update_steps (epoch_steps quiet_externals default_args 2 2)) \<noteq> 4 div 2 + 1"
  by (simp add: epoch_steps_update_steps quiet_externals_def upt_conv_Cons)

text \<open>
  Claim C3, as the code has it. On rank 0 the shadow model is updated at exactly the
  micro-steps that attempt an optimizer update, whether or not the gradient scaler let
  \<^verbatim>\<open>optimizer.step\<close> run, which makes \<open>(N + acc - 1) div acc\<close> updates over \<open>N\<close> steps;
  on any other rank there is no shadow model and no update. The optimizer steps that
  did run are the attempts without a gradient overflow. All of this holds in every run of
  \<^verbatim>\<open>train\<close>.
\<close>

theorem C3_ema_follows_attempts:
  assumes "1 \<le> acc"
  shows "ema_steps (epoch_steps x a acc E) =
           (if local_rank a = 0 then filter (\<lambda>k. int k mod acc = 0) [0..<loader_len x * E]
            else []) \<and>
         applied_steps (epoch_steps x a acc E) =
           filter (\<lambda>k. \<not> grad_overflow x k)
             (filter (\<lambda>k. int k mod acc = 0) [0..<loader_len x * E]) \<and>
         int (length (ema_steps (epoch_steps x a acc E))) =
           (if local_rank a = 0 then (int (loader_len x * E) + acc - 1) div acc else 0) \<and>
         ema_steps (events_of (train x a s)) =
           (if local_rank a = 0 then update_steps (events_of (train x a s)) else []) \<and>
         applied_steps (events_of (train x a s)) =
           filter (\<lambda>k. \<not> grad_overflow x k) (update_steps (events_of (train x a s)))"
  using count_multiples [OF assms, of "loader_len x * E"] train_ema_any [of x a s]
  by (simp only: epoch_steps_ema_steps epoch_steps_applied_steps epoch_steps_update_steps) simp

text \<open>
  Claim C3 at concrete inputs: count 2 over 4 steps without overflow updates the shadow
  model at steps 0 and 2 on rank 0, and never on rank 1.
\<close>

theorem C3_witness:
  "(1::int) \<le> 2 \<and>
   ema_steps (epoch_steps quiet_externals default_args 2 2) = [0, 2] \<and>
   applied_steps (epoch_steps quiet_externals default_args 2 2) = [0, 2] \<and>
   ema_steps (epoch_steps quiet_externals (default_args\<lparr>local_rank := 1\<rparr>) 2 2) = []"
  using C3_ema_follows_attempts [of 2 quiet_externals default_args 2]
    C3_ema_follows_attempts [of 2 quiet_externals "default_args\<lparr>local_rank := 1\<rparr>" 2]
  by (simp add: quiet_externals_def default_args_def upt_conv_Cons)

text \<open>
  Claim C3 as stated fails: when the gradients overflow at step 0 the scaler skips the
  optimizer step, no optimizer update succeeds in the two micro-steps, and the shadow
  model is updated all the same; and over 3 steps with count 2 the shadow model gets 2
  updates, not \<open>3 div 2\<close>.
\<close>

theorem C3_ema_updated_on_skipped_step:
  "ema_steps (epoch_steps (quiet_externals\<lparr>grad_overflow := (\<lambda>k. k = 0)\<rparr>) default_args 2 1) = [0] \<and>
   applied_steps (epoch_steps (quiet_externals\<lparr>grad_overflow := (\<lambda>k. k = 0)\<rparr>) default_args 2 1) = [] \<and>
   micro_steps (epoch_steps (quiet_externals\<lparr>grad_overflow := (\<lambda>k. k = 0)\<rparr>) default_args 2 1) = [0, 1] \<and>
   length (ema_steps (epoch_steps (quiet_externals\<lparr>loader_len := 3\<rparr>) default_args 2 1)) \<noteq> 3 div 2"
  by (simp add: epoch_steps_ema_steps epoch_steps_applied_steps epoch_steps_update_steps
      epoch_steps_micro_steps quiet_externals_def default_args_def upt_conv_Cons)

text \<open>
  Claim C6, as the code has it. In every run of \<^verbatim>\<open>train\<close> some number \<open>m\<close> of epochs
  start, all of them when the run returns. The mosaic flag is switched off exactly once,
  at epoch index \<open>epochs - 10\<close>, when that epoch is among them, and never otherwise, so
  never in a run of fewer than 10 epochs. Every epoch before that index starts with the
  flag of the data set, and every epoch from that index on starts with the flag off.
\<close>

theorem C6_mosaic_toggle:
  "\<exists>m. m \<le> nat (epochs a) \<and>
     (result_of (train x a s) = Inr () \<longrightarrow> m = nat (epochs a)) \<and>
     iter_flags (events_of (train x a s)) =
       map (\<lambda>e. (e, mosaic_init x \<and> (epochs a < 10 \<or> int e < epochs a - 10))) [0..<m] \<and>
     toggles (events_of (train x a s)) =
       (if 10 \<le> epochs a \<and> nat (epochs a - 10) < m then [nat (epochs a - 10)] else [])"
  by (rule train_mosaic_any)

text \<open>
  Claim C6 at the scenario of the specification: with 20 epochs the toggle fires at epoch
  index 10, the 11th epoch, and the epochs 11 to 20 run without mosaic.
\<close>

theorem C6_witness:
  "result_of (train quiet_externals (secondary_args\<lparr>epochs := 20\<rparr>) used_state) = Inr () \<and>
   toggles (events_of (train quiet_externals (secondary_args\<lparr>epochs := 20\<rparr>) used_state)) = [10] \<and>
   iter_flags (events_of (train quiet_externals (secondary_args\<lparr>epochs := 20\<rparr>) used_state)) =
     map (\<lambda>e. (e, e < 10)) [0..<20]"
proof -
  have r: "result_of (train quiet_externals (secondary_args\<lparr>epochs := 20\<rparr>) used_state) = Inr ()"
    by (rule secondary_run_returns)
  from C6_mosaic_toggle [of "secondary_args\<lparr>epochs := 20\<rparr>" quiet_externals used_state] r
  show ?thesis
    by (auto simp: quiet_externals_def)
qed

text \<open>
  Claim C6 as stated fails for a short run: with 5 epochs the run returns, the toggle
  never fires, and all five epochs run with mosaic.
\<close>

theorem C6_short_run_never_toggles:
  "result_of (train quiet_externals (secondary_args\<lparr>epochs := 5\<rparr>) used_state) = Inr () \<and>
   toggles (events_of (train quiet_externals (secondary_args\<lparr>epochs := 5\<rparr>) used_state)) = [] \<and>
   iter_flags (events_of (train quiet_externals (secondary_args\<lparr>epochs := 5\<rparr>) used_state)) =
     [(0, True), (1, True), (2, True), (3, True), (4, True)]"
proof -
  have r: "result_of (train quiet_externals (secondary_args\<lparr>epochs := 5\<rparr>) used_state) = Inr ()"
    by (rule secondary_run_returns)
  from train_mosaic_any [of "secondary_args\<lparr>epochs := 5\<rparr>" quiet_externals used_state] r
  show ?thesis
    by (auto simp: quiet_externals_def upt_conv_Cons)
qed

end
